theory Spec2Isabelle
  imports Complex_Main "HOL-Library.Multiset"
begin

section \<open>Configuration\<close>

text \<open>
  The options of \<open>Config\<close> that the orchestrator (class \<open>Human\<close>) and the object
  pipeline (\<open>nanodet.ts\<close>) read. A nested option \<open>config.object.enabled\<close> is the
  field \<open>object_enabled\<close>. JavaScript numbers are reals here (integers where the
  code only counts), so a quotient by zero and not-a-number are outside the model.
  Options that only switch logging (\<open>debug\<close>) or the buffer scope of the tensor
  engine (\<open>scoped\<close>, \<open>deallocate\<close>, \<open>wasmPath\<close>) have no effect on the values
  modelled and are left out.
\<close>

record config =
  backend :: string
  async :: bool
  videoOptimized :: bool
  profile :: bool
  warmup :: string
  face_enabled :: bool
  face_age_enabled :: bool
  face_gender_enabled :: bool
  face_emotion_enabled :: bool
  face_embedding_enabled :: bool
  face_description_enabled :: bool
  body_enabled :: bool
  body_modelPath :: string
  hand_enabled :: bool
  object_enabled :: bool
  object_modelPath :: string
  object_minConfidence :: real
  object_iouThreshold :: real
  object_maxResults :: nat
  object_skipFrames :: int
  gesture_enabled :: bool

section \<open>Tensors and the tensor primitives the decoder calls\<close>

text \<open>
  A tensor is its shape and its values in row-major order, as \<open>dataSync\<close> gives
  them. An exception of the source is a value of \<open>js_error\<close>: \<open>TypeError\<close> for a
  method called on \<open>undefined\<close>, \<open>ShapeError\<close> for a tensor that is not the layout the
  decoder is written for (one frame per batch), \<open>ArgumentError\<close> for an argument that
  the tensor library refuses.
\<close>

record tensor =
  shape :: "nat list"
  vals :: "real list"

datatype js_error = TypeError | ShapeError | ArgumentError

definition MAX_SAFE_INTEGER :: int where
  "MAX_SAFE_INTEGER = 9007199254740991"

definition scaleBox :: real where
  "scaleBox = 5 / 2"

definition trunc :: "real \<Rightarrow> int" where
  "trunc x = (if 0 \<le> x then floor x else ceiling x)"

definition shape_at :: "tensor \<Rightarrow> nat \<Rightarrow> nat option" where
  "shape_at a k = (if k < length (shape a) then Some (shape a ! k) else None)"

definition squeeze :: "tensor \<Rightarrow> tensor" where
  "squeeze a = a\<lparr>shape := filter (\<lambda>d. d \<noteq> 1) (shape a)\<rparr>"

definition rows :: "nat \<Rightarrow> nat \<Rightarrow> real list \<Rightarrow> real list list" where
  "rows n m vs = map (\<lambda>i. take m (drop (i * m) vs)) [0..<n]"

text \<open>
  \<open>scoresT.arraySync()\<close> together with \<open>scoresT.shape[0]\<close> and \<open>scoresT.shape[1]\<close>:
  the two loop bounds and the rows. With fewer than two dimensions a loop bound is
  \<open>undefined\<close> and no cell is visited.
\<close>

definition arraySync :: "tensor \<Rightarrow> js_error + (nat \<times> nat \<times> real list list)" where
  "arraySync a =
     (case shape a of
        [] \<Rightarrow> Inr (0, 0, [])
      | [n] \<Rightarrow> Inr (0, 0, [])
      | [n, m] \<Rightarrow> if length (vals a) = n * m then Inr (n, m, rows n m (vals a)) else Inl ShapeError
      | _ \<Rightarrow> Inl ShapeError)"

fun argMax_loop :: "real list \<Rightarrow> nat \<Rightarrow> nat \<Rightarrow> real \<Rightarrow> nat" where
  "argMax_loop [] j maxIndex mx = maxIndex"
| "argMax_loop (v # vs) j maxIndex mx =
     (if v > mx then argMax_loop vs (Suc j) j v else argMax_loop vs (Suc j) maxIndex mx)"

text \<open>
  Modelled from the spec: \<open>argMax\<close> belongs to the bundled tensor library, which is
  not among the sources. It is "the index of the maximum value across the
  group"; of several maximal values the first one.
\<close>

definition argMax :: "real list \<Rightarrow> nat" where
  "argMax g = (case g of [] \<Rightarrow> 0 | v # vs \<Rightarrow> argMax_loop (v # vs) 0 0 v)"

text \<open>
  \<open>featuresT.reshape([-1, 4, featuresT.shape[1] / 4])\<close>: when \<open>shape[1] / 4\<close> is a whole
  positive number, every row of the squeezed feature tensor is cut into 4 groups of
  that many values. The source does not check this. In every other case (a size that
  is not whole, or 0, or a tensor that has not two dimensions after \<open>squeeze\<close>) the
  call is still made, and what the library then answers is said neither by the
  sources nor by the spec: \<open>reshape\<close> is \<open>None\<close> there and the answer is a parameter of
  \<open>boxIdx_of\<close>.
\<close>

definition reshape :: "tensor \<Rightarrow> real list list list option" where
  "reshape a =
     (case shape a of
        [n, c] \<Rightarrow>
          if c mod 4 = 0 \<and> 0 < c \<and> length (vals a) = n * c
          then Some (map (\<lambda>row. map (\<lambda>e. take (c div 4) (drop (e * (c div 4)) row)) [0..<4]) (rows n c (vals a)))
          else None
      | _ \<Rightarrow> None)"

text \<open>\<open>boxesMax.argMax(2).arraySync()\<close>: one index per group.\<close>

definition argMax2 :: "real list list list \<Rightarrow> nat list list" where
  "argMax2 boxesMax = map (map argMax) boxesMax"

text \<open>
  Lines 32 and 33 together, \<open>featuresT.reshape(...).argMax(2).arraySync()\<close>: the table
  \<open>boxIdx\<close>. The parameter \<open>irregular\<close> is what the tensor library answers for a feature
  tensor that cannot be cut into 4 groups: an exception, or a table with four indices
  in each row (the shape asked for is \<open>[-1, 4, ...]\<close> and its last axis is reduced).
\<close>

type_synonym fallback = "tensor \<Rightarrow> js_error + (nat \<times> nat \<times> nat \<times> nat) list"

definition boxIdx_of :: "fallback \<Rightarrow> tensor \<Rightarrow> js_error + nat list list" where
  "boxIdx_of irregular ft =
     (case reshape ft of
        Some boxesMax \<Rightarrow> Inr (argMax2 boxesMax)
      | None \<Rightarrow>
          (case irregular ft of
             Inl e \<Rightarrow> Inl e
           | Inr table \<Rightarrow> Inr (map (\<lambda>(a, b, c, d). [a, b, c, d]) table)))"

section \<open>Stride decoder (\<open>process\<close>, first part)\<close>

record candidate =
  id_n :: nat
  strideSize :: nat
  score :: real
  class_n :: nat
  label :: string
  center :: "int list"
  centerRaw :: "real list"
  box :: "int list"
  boxRaw :: "real list"

text \<open>
  The candidate built for a cell \<open>i\<close> and a class \<open>j\<close> whose score \<open>sc\<close> has passed
  (lines 39 to 68), with identifier \<open>idn\<close>. The label table \<open>labels\<close> (module
  \<open>labels\<close>, not among the sources) is a parameter.
\<close>

definition cell_result ::
  "string list \<Rightarrow> nat \<Rightarrow> nat \<Rightarrow> nat list \<Rightarrow> nat list \<Rightarrow> real
     \<Rightarrow> nat \<Rightarrow> nat \<Rightarrow> nat \<Rightarrow> candidate" where
  "cell_result labels stride inputSize outputShape boxIdx_i sc i j idn =
     (let baseSize = stride * 13;
          cx = (1 / 2 + real_of_int (trunc (real (i mod baseSize)))) / real baseSize;
          cy = (1 / 2 + real_of_int (trunc (real i / real baseSize))) / real baseSize;
          boxOffset = map (\<lambda>a. real a * (real baseSize / real stride / real inputSize)) boxIdx_i;
          x = cx - (scaleBox / real stride * boxOffset ! 0);
          y = cy - (scaleBox / real stride * boxOffset ! 1);
          w = cx + (scaleBox / real stride * boxOffset ! 2) - x;
          h = cy + (scaleBox / real stride * boxOffset ! 3) - y;
          bRaw = map (\<lambda>a. max 0 (min a 1)) [x, y, w, h];
          b = [bRaw ! 0 * real (outputShape ! 0),
               bRaw ! 1 * real (outputShape ! 1),
               bRaw ! 2 * real (outputShape ! 0),
               bRaw ! 3 * real (outputShape ! 1)]
      in \<lparr> id_n = idn, strideSize = stride, score = sc, class_n = j + 1,
           label = labels ! j,
           center = [trunc (real (outputShape ! 0) * cx), trunc (real (outputShape ! 1) * cy)],
           centerRaw = [cx, cy],
           box = map trunc b,
           boxRaw = bRaw \<rparr>)"

text \<open>
  The body of the two inner loops for one cell and one class: nothing when the score
  does not pass; \<open>TypeError\<close> when \<open>boxIdx[i]\<close> or \<open>labels[j]\<close> is \<open>undefined\<close>.
\<close>

definition cell ::
  "string list \<Rightarrow> config \<Rightarrow> nat \<Rightarrow> nat \<Rightarrow> nat list \<Rightarrow> nat list list \<Rightarrow> real list list
     \<Rightarrow> nat \<Rightarrow> nat \<Rightarrow> nat \<Rightarrow> js_error + candidate option" where
  "cell labels cfg stride inputSize outputShape boxIdx scores i j idn =
     (let sc = scores ! i ! j
      in if sc > object_minConfidence cfg \<and> j \<noteq> 61 then
           (if i < length boxIdx \<and> j < length labels
            then Inr (Some (cell_result labels stride inputSize outputShape (boxIdx ! i) sc i j idn))
            else Inl TypeError)
         else Inr None)"

text \<open>The two nested \<open>for\<close> loops, over the cells in row-major order.\<close>

fun scan ::
  "(nat \<Rightarrow> nat \<Rightarrow> nat \<Rightarrow> js_error + candidate option) \<Rightarrow> (nat \<times> nat) list
     \<Rightarrow> nat \<times> candidate list \<Rightarrow> js_error + (nat \<times> candidate list)" where
  "scan f [] st = Inr st"
| "scan f ((i, j) # ps) (idn, results) =
     (case f i j idn of
        Inl e \<Rightarrow> Inl e
      | Inr None \<Rightarrow> scan f ps (idn, results)
      | Inr (Some c) \<Rightarrow> scan f ps (Suc idn, results @ [c]))"

text \<open>
  Lines 30 and 31: the score tensor and the feature tensor of a stride, found by
  their shapes and squeezed; \<open>None\<close> is \<open>undefined\<close>.
\<close>

definition scoresT :: "string list \<Rightarrow> tensor list \<Rightarrow> nat \<Rightarrow> tensor option" where
  "scoresT labels res stride =
     (let baseSize = stride * 13
      in map_option squeeze
           (find (\<lambda>a. shape_at a 1 = Some (baseSize ^ 2) \<and> shape_at a 2 = Some (length labels)) res))"

definition featuresT :: "string list \<Rightarrow> tensor list \<Rightarrow> nat \<Rightarrow> tensor option" where
  "featuresT labels res stride =
     (let baseSize = stride * 13
      in map_option squeeze
           (find (\<lambda>a. shape_at a 1 = Some (baseSize ^ 2)
                      \<and> (case shape_at a 2 of None \<Rightarrow> False | Some d \<Rightarrow> d < length labels)) res))"

text \<open>The body of the loop over the stride sizes (the function given to \<open>tf.tidy\<close>).\<close>

definition stride_step ::
  "fallback \<Rightarrow> string list \<Rightarrow> config \<Rightarrow> tensor list \<Rightarrow> nat
     \<Rightarrow> nat list \<Rightarrow> nat \<Rightarrow> nat \<times> candidate list \<Rightarrow> js_error + (nat \<times> candidate list)" where
  "stride_step irregular labels cfg res inputSize outputShape stride st =
     (case featuresT labels res stride of
        None \<Rightarrow> Inl TypeError
      | Some ft \<Rightarrow>
          (case boxIdx_of irregular ft of
             Inl e \<Rightarrow> Inl e
           | Inr boxIdx \<Rightarrow>
               (case scoresT labels res stride of
                  None \<Rightarrow> Inl TypeError
                | Some sT \<Rightarrow>
                    (case arraySync sT of
                       Inl e \<Rightarrow> Inl e
                     | Inr (n, m, scores) \<Rightarrow>
                         scan (cell labels cfg stride inputSize outputShape boxIdx scores)
                              (List.product [0..<n] [0..<m]) st))))"

fun strides ::
  "(nat \<Rightarrow> nat \<times> candidate list \<Rightarrow> js_error + (nat \<times> candidate list)) \<Rightarrow> nat list
     \<Rightarrow> nat \<times> candidate list \<Rightarrow> js_error + (nat \<times> candidate list)" where
  "strides step [] st = Inr st"
| "strides step (s # ss) st = (case step s st of Inl e \<Rightarrow> Inl e | Inr st' \<Rightarrow> strides step ss st')"

text \<open>Lines 23 to 74 of \<open>process\<close>: the candidates of the three strides, in order.\<close>

definition decode ::
  "fallback \<Rightarrow> string list \<Rightarrow> tensor list option \<Rightarrow> nat \<Rightarrow> nat list
     \<Rightarrow> config \<Rightarrow> js_error + candidate list" where
  "decode irregular labels res inputSize outputShape cfg =
     (case res of
        None \<Rightarrow> Inl TypeError
      | Some ts \<Rightarrow>
          (case strides (stride_step irregular labels cfg ts inputSize outputShape) [1, 2, 4] (0, []) of
             Inl e \<Rightarrow> Inl e
           | Inr (idn, results) \<Rightarrow> Inr results))"

section \<open>Suppressor (\<open>process\<close>, second part)\<close>

text \<open>
  Modelled from the spec: the overlap ratio of two boxes is computed inside the
  bundled tensor library, which is not among the sources. A box is the four numbers
  it is given, read as two opposite corners; the ratio is the area of the
  intersection over the area of the union, and 0 for a box without area.
\<close>

definition iou :: "real list \<Rightarrow> real list \<Rightarrow> real" where
  "iou a b =
     (let yminA = min (a ! 0) (a ! 2); xminA = min (a ! 1) (a ! 3);
          ymaxA = max (a ! 0) (a ! 2); xmaxA = max (a ! 1) (a ! 3);
          yminB = min (b ! 0) (b ! 2); xminB = min (b ! 1) (b ! 3);
          ymaxB = max (b ! 0) (b ! 2); xmaxB = max (b ! 1) (b ! 3);
          areaA = (ymaxA - yminA) * (xmaxA - xminA);
          areaB = (ymaxB - yminB) * (xmaxB - xminB)
      in if areaA \<le> 0 \<or> areaB \<le> 0 then 0
         else (let inter = max (min ymaxA ymaxB - max yminA yminB) 0
                         * max (min xmaxA xmaxB - max xminA xminB) 0
               in inter / (areaA + areaB - inter)))"

text \<open>
  Modelled from the spec: the selection loop of the suppressor, over the indices of
  the candidates that remain, best first. "Repeatedly select the highest remaining
  candidate, discard all others whose box overlaps the selected box by IoU \<open>\<ge>\<close>
  \<open>iouThreshold\<close>, stop after \<open>maxResults\<close> selections or when the candidate set is
  exhausted."
\<close>

fun nms_select :: "real list list \<Rightarrow> real \<Rightarrow> nat \<Rightarrow> nat list \<Rightarrow> nat list" where
  "nms_select boxes iouThreshold 0 remaining = []"
| "nms_select boxes iouThreshold (Suc n) [] = []"
| "nms_select boxes iouThreshold (Suc n) (c # remaining) =
     c # nms_select boxes iouThreshold n
           (filter (\<lambda>d. \<not> iou (boxes ! d) (boxes ! c) \<ge> iouThreshold) remaining)"

text \<open>
  Modelled from the spec: \<open>tf.image.nonMaxSuppressionAsync\<close> of the bundled tensor
  library, which is not among the sources: "standard greedy NMS over the normalized
  boxes and raw scores", "sort by score descending" and select as above. The result
  is the selected indices. The library refuses an \<open>iouThreshold\<close> outside \<open>[0, 1]\<close>. The
  spec gives the last argument \<open>minConfidence\<close> no part in the selection; every score
  that reaches it has passed that bound in the decoder.
\<close>

definition nonMaxSuppressionAsync ::
  "real list list \<Rightarrow> real list \<Rightarrow> nat \<Rightarrow> real \<Rightarrow> real \<Rightarrow> js_error + nat list" where
  "nonMaxSuppressionAsync boxes scores maxResults iouThreshold minConfidence =
     (if 0 \<le> iouThreshold \<and> iouThreshold \<le> 1
      then Inr (nms_select boxes iouThreshold maxResults
                  (sort_key (\<lambda>i. - (scores ! i)) [0..<length scores]))
      else Inl ArgumentError)"

text \<open>
  Lines 80 to 92 of \<open>process\<close>: the indices kept by the suppression, the candidates
  at those indices, sorted by falling score (the sort of JavaScript is stable). The
  library is not called for an empty list.
\<close>

definition suppressor :: "candidate list \<Rightarrow> config \<Rightarrow> js_error + candidate list" where
  "suppressor results cfg =
     (let nmsBoxes = map boxRaw results;
          nmsScores = map score results
      in case (if length nmsBoxes > 0
               then nonMaxSuppressionAsync nmsBoxes nmsScores (object_maxResults cfg)
                      (object_iouThreshold cfg) (object_minConfidence cfg)
               else Inr []) of
           Inl e \<Rightarrow> Inl e
         | Inr nmsIdx \<Rightarrow>
             Inr (sort_key (\<lambda>a. - score a)
                    (map snd (filter (\<lambda>(idx, a). idx \<in> set nmsIdx) (enumerate 0 results)))))"

definition process ::
  "fallback \<Rightarrow> string list \<Rightarrow> tensor list option \<Rightarrow> nat \<Rightarrow> nat list
     \<Rightarrow> config \<Rightarrow> js_error + candidate list" where
  "process irregular labels res inputSize outputShape cfg =
     (case decode irregular labels res inputSize outputShape cfg of
        Inl e \<Rightarrow> Inl e
      | Inr results \<Rightarrow> suppressor results cfg)"

text \<open>
  Modelled from the spec: the overlap ratio of two of the boxes the candidates carry.
  A candidate's \<open>boxRaw\<close> is \<open>[x, y, w, h]\<close> (line 50): a corner, a width and a height.
  "IoU (Intersection-over-Union): overlap ratio between two boxes", the area of the
  intersection over the area of the union.
\<close>

definition box_iou :: "real list \<Rightarrow> real list \<Rightarrow> real" where
  "box_iou a b =
     (let ix = max (min (a ! 0 + a ! 2) (b ! 0 + b ! 2) - max (a ! 0) (b ! 0)) 0;
          iy = max (min (a ! 1 + a ! 3) (b ! 1 + b ! 3) - max (a ! 1) (b ! 1)) 0;
          inter = ix * iy;
          union = a ! 2 * a ! 3 + b ! 2 * b ! 3 - inter
      in if union \<le> 0 then 0 else inter / union)"

section \<open>Object pipeline (\<open>load\<close> and \<open>predict\<close> of \<open>nanodet.ts\<close>)\<close>

text \<open>
  A loaded graph: the sizes \<open>dim[1]\<close> and \<open>dim[2]\<close> of its declared input and what
  running it gives. \<open>executeAsync m img\<close> stands for \<open>model.executeAsync\<close> on the
  frame \<open>img\<close> resized to the input size, divided by 255 and transposed.
\<close>

record graph_model =
  dim1 :: nat
  dim2 :: nat
  executeAsync :: "tensor \<Rightarrow> tensor list"

record model = graph_model +
  inputSize :: nat

text \<open>
  The module variables \<open>model\<close>, \<open>last\<close> and \<open>skipped\<close>. Two counters that the source
  does not have record the effects the claims speak of: \<open>loaded\<close> counts the calls of
  \<open>tf.loadGraphModel\<close>, \<open>executed\<close> the calls of \<open>model.executeAsync\<close>.
\<close>

record nanodet_state =
  model :: "model option"
  last_res :: "candidate list"
  skipped :: int
  loaded :: nat
  executed :: nat

definition nanodet_init :: nanodet_state where
  "nanodet_init = \<lparr> model = None, last_res = [], skipped = MAX_SAFE_INTEGER, loaded = 0, executed = 0 \<rparr>"

definition nanodet_load ::
  "(string \<Rightarrow> graph_model) \<Rightarrow> config \<Rightarrow> nanodet_state \<Rightarrow> model \<times> nanodet_state" where
  "nanodet_load loadGraphModel cfg s =
     (case model s of
        None \<Rightarrow>
          (let g = loadGraphModel (object_modelPath cfg);
               m = \<lparr> dim1 = dim1 g, dim2 = dim2 g, executeAsync = executeAsync g, inputSize = dim2 g \<rparr>
           in (m, s\<lparr>model := Some m, loaded := loaded s + 1\<rparr>))
      | Some m \<Rightarrow> (m, s))"

text \<open>
  What \<open>predict\<close> resolves with: \<open>null\<close> or a list of detections. \<open>None\<close> in its place
  is a promise that never settles, which is what an exception inside the promise
  executor leaves behind.
\<close>

datatype object_result = Null | Objects "candidate list"

definition predict ::
  "fallback \<Rightarrow> string list \<Rightarrow> tensor \<Rightarrow> config \<Rightarrow> nanodet_state
     \<Rightarrow> object_result option \<times> nanodet_state" where
  "predict irregular labels img cfg s =
     (case model s of
        None \<Rightarrow> (Some Null, s)
      | Some m \<Rightarrow>
          if skipped s < object_skipFrames cfg \<and> videoOptimized cfg \<and> length (last_res s) > 0
          then (Some (Objects (last_res s)), s\<lparr>skipped := skipped s + 1\<rparr>)
          else
            (let s1 = (if videoOptimized cfg then s\<lparr>skipped := 0\<rparr> else s\<lparr>skipped := MAX_SAFE_INTEGER\<rparr>)
             in if length (shape img) \<noteq> 4 then (None, s1)
                else
                  (let outputSize = [shape img ! 2, shape img ! 1];
                       (objectT, s2) =
                          (if \<not> profile cfg
                           then (if object_enabled cfg
                                 then (Some (executeAsync m img), s1\<lparr>executed := executed s1 + 1\<rparr>)
                                 else (None, s1))
                           else (if object_enabled cfg
                                 then (Some (executeAsync m img), s1\<lparr>executed := executed s1 + 1\<rparr>)
                                 else (None, s1)))
                   in case process irregular labels objectT (inputSize m) outputSize cfg of
                        Inl e \<Rightarrow> (None, s2)
                      | Inr obj \<Rightarrow> (Some (Objects obj), s2\<lparr>last_res := obj\<rparr>))))"

text \<open>
  A sequence of calls of \<open>predict\<close>, one per frame: what each call resolves with and
  the number of model executions counted after it.
\<close>

fun predict_seq ::
  "fallback \<Rightarrow> string list \<Rightarrow> config \<Rightarrow> tensor list \<Rightarrow> nanodet_state
     \<Rightarrow> (object_result option \<times> nat) list \<times> nanodet_state" where
  "predict_seq irregular labels cfg [] s = ([], s)"
| "predict_seq irregular labels cfg (img # imgs) s =
     (let (r, s1) = predict irregular labels img cfg s;
          (rs, s2) = predict_seq irregular labels cfg imgs s1
      in ((r, executed s1) # rs, s2))"

section \<open>The orchestrator (class \<open>Human\<close>)\<close>

subsection \<open>Values, inputs and configuration overrides\<close>

text \<open>
  The face, body, hand and gesture pipelines, the image pre-processing and the
  helpers are not among the sources. What they return is a JavaScript value, kept
  here as a \<open>json\<close>; an input is absent, a tensor or some image object.
\<close>

datatype json = JUndefined | JNull | JNum real | JStr string | JArr "json list" | JObj "(string \<times> json) list"

datatype input = NoInput | TensorInput tensor | ImageInput nat

text \<open>
  A \<open>userConfig\<close> object: every option is either given or left out. \<open>no_overrides\<close> is
  the empty object \<open>{}\<close>, \<open>as_user c\<close> a complete configuration passed as overrides
  (\<open>this.detect(input, this.config)\<close>).
\<close>

record user_config =
  u_backend :: "string option"
  u_async :: "bool option"
  u_videoOptimized :: "bool option"
  u_profile :: "bool option"
  u_warmup :: "string option"
  u_face_enabled :: "bool option"
  u_face_age_enabled :: "bool option"
  u_face_gender_enabled :: "bool option"
  u_face_emotion_enabled :: "bool option"
  u_face_embedding_enabled :: "bool option"
  u_face_description_enabled :: "bool option"
  u_body_enabled :: "bool option"
  u_body_modelPath :: "string option"
  u_hand_enabled :: "bool option"
  u_object_enabled :: "bool option"
  u_object_modelPath :: "string option"
  u_object_minConfidence :: "real option"
  u_object_iouThreshold :: "real option"
  u_object_maxResults :: "nat option"
  u_object_skipFrames :: "int option"
  u_gesture_enabled :: "bool option"

definition no_overrides :: user_config where
  "no_overrides =
     \<lparr> u_backend = None, u_async = None, u_videoOptimized = None, u_profile = None,
       u_warmup = None, u_face_enabled = None, u_face_age_enabled = None,
       u_face_gender_enabled = None, u_face_emotion_enabled = None,
       u_face_embedding_enabled = None, u_face_description_enabled = None,
       u_body_enabled = None, u_body_modelPath = None, u_hand_enabled = None,
       u_object_enabled = None, u_object_modelPath = None, u_object_minConfidence = None,
       u_object_iouThreshold = None, u_object_maxResults = None, u_object_skipFrames = None,
       u_gesture_enabled = None \<rparr>"

definition as_user :: "config \<Rightarrow> user_config" where
  "as_user c =
     \<lparr> u_backend = Some (backend c), u_async = Some (async c),
       u_videoOptimized = Some (videoOptimized c), u_profile = Some (profile c),
       u_warmup = Some (warmup c), u_face_enabled = Some (face_enabled c),
       u_face_age_enabled = Some (face_age_enabled c),
       u_face_gender_enabled = Some (face_gender_enabled c),
       u_face_emotion_enabled = Some (face_emotion_enabled c),
       u_face_embedding_enabled = Some (face_embedding_enabled c),
       u_face_description_enabled = Some (face_description_enabled c),
       u_body_enabled = Some (body_enabled c), u_body_modelPath = Some (body_modelPath c),
       u_hand_enabled = Some (hand_enabled c), u_object_enabled = Some (object_enabled c),
       u_object_modelPath = Some (object_modelPath c),
       u_object_minConfidence = Some (object_minConfidence c),
       u_object_iouThreshold = Some (object_iouThreshold c),
       u_object_maxResults = Some (object_maxResults c),
       u_object_skipFrames = Some (object_skipFrames c),
       u_gesture_enabled = Some (gesture_enabled c) \<rparr>"

definition over :: "'a option \<Rightarrow> 'a \<Rightarrow> 'a" where
  "over u v = (case u of None \<Rightarrow> v | Some x \<Rightarrow> x)"

text \<open>
  Modelled from the spec: \<open>mergeDeep\<close> of the module \<open>helpers\<close>, which is not among
  the sources. "Merge configuration overrides into current configuration": an option
  the overrides give replaces the current one, every other option stays.
\<close>

definition mergeDeep :: "config \<Rightarrow> user_config \<Rightarrow> config" where
  "mergeDeep c u =
     \<lparr> backend = over (u_backend u) (backend c), async = over (u_async u) (async c),
       videoOptimized = over (u_videoOptimized u) (videoOptimized c),
       profile = over (u_profile u) (profile c), warmup = over (u_warmup u) (warmup c),
       face_enabled = over (u_face_enabled u) (face_enabled c),
       face_age_enabled = over (u_face_age_enabled u) (face_age_enabled c),
       face_gender_enabled = over (u_face_gender_enabled u) (face_gender_enabled c),
       face_emotion_enabled = over (u_face_emotion_enabled u) (face_emotion_enabled c),
       face_embedding_enabled = over (u_face_embedding_enabled u) (face_embedding_enabled c),
       face_description_enabled = over (u_face_description_enabled u) (face_description_enabled c),
       body_enabled = over (u_body_enabled u) (body_enabled c),
       body_modelPath = over (u_body_modelPath u) (body_modelPath c),
       hand_enabled = over (u_hand_enabled u) (hand_enabled c),
       object_enabled = over (u_object_enabled u) (object_enabled c),
       object_modelPath = over (u_object_modelPath u) (object_modelPath c),
       object_minConfidence = over (u_object_minConfidence u) (object_minConfidence c),
       object_iouThreshold = over (u_object_iouThreshold u) (object_iouThreshold c),
       object_maxResults = over (u_object_maxResults u) (object_maxResults c),
       object_skipFrames = over (u_object_skipFrames u) (object_skipFrames c),
       gesture_enabled = over (u_gesture_enabled u) (gesture_enabled c) \<rparr>"

subsection \<open>Models, the environment and the state\<close>

text \<open>The keys of \<open>this.models\<close>.\<close>

datatype capability =
  Face | Posenet | Blazepose | Efficientpose | Handpose | Iris | Age | Gender | Emotion
  | Embedding | Nanodet | Faceres

text \<open>
  \<open>blazepose.ts\<close> (the first 57 lines of \<open>part_000\<close>): the module variable \<open>model\<close>
  with the \<open>width\<close> and \<open>height\<close> read from the declared input, and a counter of the
  calls of \<open>tf.loadGraphModel\<close> that the source does not have.
\<close>

record blazepose_model = graph_model +
  width :: nat
  height :: nat

record blazepose_state =
  bp_model :: "blazepose_model option"
  bp_loaded :: nat

text \<open>
  What a slot of \<open>this.models\<close> holds: the model of \<open>nanodet\<close> or of \<open>blazepose\<close>, or
  the object that the \<open>load\<close> of a module outside the sources returned.
\<close>

datatype handle = NanodetModel model | BlazeposeModel blazepose_model | ExternalModel capability

text \<open>
  Everything the orchestrator calls and the sources do not define, as parameters: the
  label table, the answer of the tensor library for an irregular feature tensor (see
  \<open>boxIdx_of\<close>), \<open>tf.loadGraphModel\<close>, the clock (the reading of the \<open>n\<close>-th call of
  \<open>now()\<close>), the platform flags, whether \<open>tf.setBackend\<close> accepts a name,
  \<open>image.process\<close> (\<open>None\<close> when it gives no tensor), the pipelines of the other
  capabilities, the gesture rules, which warmup path the platform offers and the
  input built from a bundled sample. The pipelines take the frame and the
  configuration; what else they may do to the instance they are handed is not
  modelled.
\<close>

record env =
  env_labels :: "string list"
  env_irregular :: fallback
  env_loadGraphModel :: "string \<Rightarrow> graph_model"
  env_now :: "nat \<Rightarrow> real"
  env_IS_NODE :: bool
  env_IS_BROWSER :: bool
  env_setBackend :: "string \<Rightarrow> bool"
  env_process :: "input \<Rightarrow> config \<Rightarrow> (tensor \<times> json) option"
  env_detectFace :: "tensor \<Rightarrow> config \<Rightarrow> json"
  env_estimatePoses :: "tensor \<Rightarrow> config \<Rightarrow> json"
  env_efficientpose :: "tensor \<Rightarrow> config \<Rightarrow> json"
  env_keypoints :: "blazepose_model \<Rightarrow> tensor \<Rightarrow> json"
  env_estimateHands :: "tensor \<Rightarrow> config \<Rightarrow> json"
  env_gesture_face :: "json \<Rightarrow> json list"
  env_gesture_body :: "json \<Rightarrow> json list"
  env_gesture_hand :: "json \<Rightarrow> json list"
  env_gesture_iris :: "json \<Rightarrow> json list"
  env_createImageBitmap :: bool
  env_Image :: bool
  env_sample :: "string \<Rightarrow> input"

text \<open>
  The fields of a \<open>Human\<close> instance that the methods below read or write, together
  with what lies outside the instance and they change: the module variables of
  \<open>nanodet\<close> and \<open>blazepose\<close>, the number of calls of each other module's \<open>load\<close>, the
  active backend of the tensor library and the number of clock readings taken.
  \<open>analyze\<close> only logs, and only when \<open>#analyzeMemoryLeaks\<close> is set, which it never is;
  it is left out.
\<close>

record human =
  config :: config
  state :: string
  perf :: "string \<Rightarrow> int option"
  models :: "capability \<Rightarrow> handle option"
  checkSanity :: bool
  firstRun :: bool
  nanodet :: nanodet_state
  blazepose :: blazepose_state
  load_calls :: "capability \<Rightarrow> nat"
  tf_backend :: string
  ticks :: nat

text \<open>
  The constructor, in a fresh process: \<open>defaults\<close> is the default configuration
  (module \<open>config\<close>, not among the sources), \<open>tfBackend\<close> the backend the tensor library
  starts with.
\<close>

definition Human :: "config \<Rightarrow> user_config \<Rightarrow> string \<Rightarrow> human" where
  "Human defaults userConfig tfBackend =
     \<lparr> config = mergeDeep defaults userConfig, state = ''idle'', perf = Map.empty,
       models = (\<lambda>k. None), checkSanity = False, firstRun = True,
       nanodet = nanodet_init, blazepose = \<lparr> bp_model = None, bp_loaded = 0 \<rparr>,
       load_calls = (\<lambda>k. 0), tf_backend = tfBackend, ticks = 0 \<rparr>"

definition now :: "env \<Rightarrow> human \<Rightarrow> real \<times> human" where
  "now E h = (env_now E (ticks h), h\<lparr>ticks := Suc (ticks h)\<rparr>)"

text \<open>\<open>if (this.perf.x) delete this.perf.x\<close>: an entry that is 0 is falsy and stays.\<close>

definition delete_if_set :: "(string \<Rightarrow> int option) \<Rightarrow> string \<Rightarrow> (string \<Rightarrow> int option)" where
  "delete_if_set p k = (case p k of None \<Rightarrow> p | Some v \<Rightarrow> if v \<noteq> 0 then p(k := None) else p)"

fun str_includes :: "string \<Rightarrow> string \<Rightarrow> bool" where
  "str_includes [] pat = (pat = [])"
| "str_includes (c # cs) pat = (take (length pat) (c # cs) = pat \<or> str_includes cs pat)"

subsection \<open>\<open>#sanity\<close> and \<open>#checkBackend\<close>\<close>

text \<open>
  \<open>tf.getBackend()\<close> reads a name and does not raise here, so the third check of
  \<open>#sanity\<close> (\<open>backend not loaded\<close>) never fails.
\<close>

definition sanity :: "env \<Rightarrow> input \<Rightarrow> human \<Rightarrow> string option" where
  "sanity E inp h =
     (if \<not> checkSanity h then None
      else if inp = NoInput then Some ''input is not defined''
      else if env_IS_NODE E \<and> (case inp of TensorInput t \<Rightarrow> False | _ \<Rightarrow> True)
           then Some ''input must be a tensor''
      else None)"

definition checkBackend :: "env \<Rightarrow> bool \<Rightarrow> human \<Rightarrow> human" where
  "checkBackend E force h =
     (if (backend (config h) \<noteq> [] \<and> force) \<or> tf_backend h \<noteq> backend (config h) then
        (let (timeStamp, h1) = now E h;
             h2 = h1\<lparr>state := ''backend''\<rparr>;
             h3 = (if backend (config h2) \<noteq> [] then
                     (let b0 = backend (config h2);
                          b1 = (if env_IS_BROWSER E \<and> b0 = ''tensorflow'' then ''webgl'' else b0);
                          b2 = (if env_IS_NODE E \<and> (b1 = ''webgl'' \<or> b1 = ''wasm'') then ''tensorflow'' else b1);
                          h' = h2\<lparr>config := (config h2)\<lparr>backend := b2\<rparr>\<rparr>
                      in if env_setBackend E b2 then h'\<lparr>tf_backend := b2\<rparr> else h')
                   else h2);
             (t, h4) = now E h3
         in h4\<lparr>perf := (perf h4)(''backend'' \<mapsto> trunc (t - timeStamp))\<rparr>)
      else h)"

subsection \<open>\<open>load\<close>\<close>

definition blazepose_load ::
  "(string \<Rightarrow> graph_model) \<Rightarrow> config \<Rightarrow> blazepose_state \<Rightarrow> blazepose_model \<times> blazepose_state" where
  "blazepose_load loadGraphModel cfg s =
     (case bp_model s of
        None \<Rightarrow>
          (let g = loadGraphModel (body_modelPath cfg);
               m = \<lparr> dim1 = dim1 g, dim2 = dim2 g, executeAsync = executeAsync g,
                     width = dim2 g, height = dim1 g \<rparr>
           in (m, s\<lparr>bp_model := Some m, bp_loaded := bp_loaded s + 1\<rparr>))
      | Some m \<Rightarrow> (m, s))"

text \<open>
  \<open>X.load(this.config)\<close> for the module of a capability. The \<open>load\<close> of a module
  outside the sources is counted at the call.
\<close>

definition module_load :: "env \<Rightarrow> capability \<Rightarrow> human \<Rightarrow> handle \<times> human" where
  "module_load E cap h =
     (case cap of
        Nanodet \<Rightarrow>
          (let (m, s) = nanodet_load (env_loadGraphModel E) (config h) (nanodet h)
           in (NanodetModel m, h\<lparr>nanodet := s\<rparr>))
      | Blazepose \<Rightarrow>
          (let (m, s) = blazepose_load (env_loadGraphModel E) (config h) (blazepose h)
           in (BlazeposeModel m, h\<lparr>blazepose := s\<rparr>))
      | _ \<Rightarrow> (ExternalModel cap, h\<lparr>load_calls := (load_calls h)(cap := load_calls h cap + 1)\<rparr>))"

text \<open>The number of underlying model loads performed so far for a capability.\<close>

definition loads_of :: "human \<Rightarrow> capability \<Rightarrow> nat" where
  "loads_of h cap =
     (case cap of
        Nanodet \<Rightarrow> loaded (nanodet h)
      | Blazepose \<Rightarrow> bp_loaded (blazepose h)
      | _ \<Rightarrow> load_calls h cap)"

text \<open>Whether the module of a capability has not loaded its model yet.\<close>

definition module_fresh :: "human \<Rightarrow> capability \<Rightarrow> bool" where
  "module_fresh h cap =
     (case cap of Nanodet \<Rightarrow> model (nanodet h) = None
                | Blazepose \<Rightarrow> bp_model (blazepose h) = None
                | _ \<Rightarrow> True)"

text \<open>
  The condition under which \<open>load\<close> wants the model of a capability, and the order in
  which both branches of \<open>load\<close> go through the capabilities.
\<close>

fun wanted :: "config \<Rightarrow> capability \<Rightarrow> bool" where
  "wanted c Face = face_enabled c"
| "wanted c Age = (face_enabled c \<and> face_age_enabled c)"
| "wanted c Gender = (face_enabled c \<and> face_gender_enabled c)"
| "wanted c Emotion = (face_enabled c \<and> face_emotion_enabled c)"
| "wanted c Embedding = (face_enabled c \<and> face_embedding_enabled c)"
| "wanted c Handpose = hand_enabled c"
| "wanted c Posenet = (body_enabled c \<and> str_includes (body_modelPath c) ''posenet'')"
| "wanted c Blazepose = (body_enabled c \<and> str_includes (body_modelPath c) ''blazepose'')"
| "wanted c Efficientpose = (body_enabled c \<and> str_includes (body_modelPath c) ''efficientpose'')"
| "wanted c Nanodet = object_enabled c"
| "wanted c Faceres = (face_enabled c \<and> face_description_enabled c)"
| "wanted c Iris = False"

definition load_order :: "capability list" where
  "load_order = [Face, Age, Gender, Emotion, Embedding, Handpose, Posenet, Blazepose,
                 Efficientpose, Nanodet, Faceres]"

text \<open>A line of the sequential branch: \<open>if (wanted && !this.models.x) this.models.x = await x.load(...)\<close>.\<close>

definition load_sync_step :: "env \<Rightarrow> capability \<Rightarrow> human \<Rightarrow> human" where
  "load_sync_step E cap h =
     (if wanted (config h) cap \<and> models h cap = None
      then (let (m, h1) = module_load E cap h in h1\<lparr>models := (models h1)(cap := Some m)\<rparr>)
      else h)"

definition load_sync :: "env \<Rightarrow> human \<Rightarrow> human" where
  "load_sync E h = fold (load_sync_step E) load_order h"

text \<open>
  The concurrent branch: the entries \<open>this.models.x || (wanted ? x.load(...) : null)\<close>
  of the array are evaluated in order, then all slots are assigned.
\<close>

definition load_async_entry :: "env \<Rightarrow> capability \<Rightarrow> human \<Rightarrow> handle option \<times> human" where
  "load_async_entry E cap h =
     (case models h cap of
        Some m \<Rightarrow> (Some m, h)
      | None \<Rightarrow>
          (if wanted (config h) cap
           then (let (m, h1) = module_load E cap h in (Some m, h1))
           else (None, h)))"

fun load_async_entries :: "env \<Rightarrow> capability list \<Rightarrow> human \<Rightarrow> handle option list \<times> human" where
  "load_async_entries E [] h = ([], h)"
| "load_async_entries E (cap # caps) h =
     (let (v, h1) = load_async_entry E cap h;
          (vs, h2) = load_async_entries E caps h1
      in (v # vs, h2))"

definition load_async :: "env \<Rightarrow> human \<Rightarrow> human" where
  "load_async E h =
     (let (vs, h1) = load_async_entries E load_order h
      in fold (\<lambda>(cap, v) h'. h'\<lparr>models := (models h')(cap := v)\<rparr>) (zip load_order vs) h1)"

definition human_load :: "env \<Rightarrow> user_config \<Rightarrow> human \<Rightarrow> human" where
  "human_load E userConfig h =
     (let h1 = h\<lparr>state := ''load''\<rparr>;
          (timeStamp, h2) = now E h1;
          h3 = h2\<lparr>config := mergeDeep (config h2) userConfig\<rparr>;
          h4 = (if firstRun h3 then checkBackend E True h3 else h3);
          h5 = (if async (config h4) then load_async E h4 else load_sync E h4);
          h6 = (if firstRun h5 then h5\<lparr>firstRun := False\<rparr> else h5);
          (t, h7) = now E h6;
          current = trunc (t - timeStamp)
      in if current > (case perf h7 ''load'' of None \<Rightarrow> 0 | Some v \<Rightarrow> v)
         then h7\<lparr>perf := (perf h7)(''load'' \<mapsto> current)\<rparr>
         else h7)"

text \<open>
  The first lines of \<open>load\<close> in one step: the state in which it goes through the
  capabilities.
\<close>

definition load_entry :: "env \<Rightarrow> user_config \<Rightarrow> human \<Rightarrow> human" where
  "load_entry E userConfig h =
     (let h3 = h\<lparr>state := ''load'', ticks := Suc (ticks h), config := mergeDeep (config h) userConfig\<rparr>
      in if firstRun h then checkBackend E True h3 else h3)"

subsection \<open>\<open>detect\<close>\<close>

record result =
  face :: json
  body :: json
  hand :: json
  gesture :: "json list"
  object :: object_result
  performance :: "string \<Rightarrow> int option"
  canvas :: json

datatype outcome = Error string | Result result

text \<open>\<open>resolve(v)\<close> on the promise of \<open>detect\<close>: only the first call settles it.\<close>

definition resolve :: "outcome option \<Rightarrow> outcome \<Rightarrow> outcome option" where
  "resolve resolved v = (case resolved of None \<Rightarrow> Some v | Some r \<Rightarrow> Some r)"

definition blazepose_predict :: "env \<Rightarrow> tensor \<Rightarrow> config \<Rightarrow> blazepose_state \<Rightarrow> json" where
  "blazepose_predict E img cfg s =
     (case bp_model s of
        None \<Rightarrow> JNull
      | Some m \<Rightarrow>
          if \<not> body_enabled cfg then JNull
          else JArr [JObj [(''keypoints'', env_keypoints E m img)]])"

definition run_face :: "env \<Rightarrow> tensor \<Rightarrow> human \<Rightarrow> json \<times> human" where
  "run_face E tensor h =
     (if async (config h) then
        (let faceRes = (if face_enabled (config h) then env_detectFace E tensor (config h) else JArr [])
         in (faceRes, h\<lparr>perf := delete_if_set (perf h) ''face''\<rparr>))
      else
        (let h1 = h\<lparr>state := ''run:face''\<rparr>;
             (timeStamp, h2) = now E h1;
             faceRes = (if face_enabled (config h2) then env_detectFace E tensor (config h2) else JArr []);
             (t, h3) = now E h2;
             current = trunc (t - timeStamp)
         in (faceRes, if current > 0 then h3\<lparr>perf := (perf h3)(''face'' \<mapsto> current)\<rparr> else h3)))"

definition body_result :: "env \<Rightarrow> tensor \<Rightarrow> human \<Rightarrow> json" where
  "body_result E tensor h =
     (if str_includes (body_modelPath (config h)) ''posenet'' then
        (if body_enabled (config h)
         then (case models h Posenet of None \<Rightarrow> JUndefined | Some m \<Rightarrow> env_estimatePoses E tensor (config h))
         else JArr [])
      else if str_includes (body_modelPath (config h)) ''blazepose'' then
        (if body_enabled (config h) then blazepose_predict E tensor (config h) (blazepose h) else JArr [])
      else if str_includes (body_modelPath (config h)) ''efficientpose'' then
        (if body_enabled (config h) then env_efficientpose E tensor (config h) else JArr [])
      else JUndefined)"

definition run_body :: "env \<Rightarrow> tensor \<Rightarrow> human \<Rightarrow> json \<times> human" where
  "run_body E tensor h =
     (if async (config h) then
        (body_result E tensor h, h\<lparr>perf := delete_if_set (perf h) ''body''\<rparr>)
      else
        (let h1 = h\<lparr>state := ''run:body''\<rparr>;
             (timeStamp, h2) = now E h1;
             bodyRes = body_result E tensor h2;
             (t, h3) = now E h2;
             current = trunc (t - timeStamp)
         in (bodyRes, if current > 0 then h3\<lparr>perf := (perf h3)(''body'' \<mapsto> current)\<rparr> else h3)))"

definition hand_result :: "env \<Rightarrow> tensor \<Rightarrow> human \<Rightarrow> json" where
  "hand_result E tensor h =
     (if hand_enabled (config h)
      then (case models h Handpose of None \<Rightarrow> JUndefined | Some m \<Rightarrow> env_estimateHands E tensor (config h))
      else JArr [])"

definition run_hand :: "env \<Rightarrow> tensor \<Rightarrow> human \<Rightarrow> json \<times> human" where
  "run_hand E tensor h =
     (if async (config h) then
        (hand_result E tensor h, h\<lparr>perf := delete_if_set (perf h) ''hand''\<rparr>)
      else
        (let h1 = h\<lparr>state := ''run:hand''\<rparr>;
             (timeStamp, h2) = now E h1;
             handRes = hand_result E tensor h2;
             (t, h3) = now E h2;
             current = trunc (t - timeStamp)
         in (handRes, if current > 0 then h3\<lparr>perf := (perf h3)(''hand'' \<mapsto> current)\<rparr> else h3)))"

text \<open>
  \<open>this.config.object.enabled ? nanodet.predict(process.tensor, this.config) : []\<close>,
  on the module state of \<open>nanodet\<close> and on the instance.
\<close>

definition object_call ::
  "env \<Rightarrow> tensor \<Rightarrow> config \<Rightarrow> nanodet_state \<Rightarrow> object_result option \<times> nanodet_state" where
  "object_call E tensor cfg s =
     (if object_enabled cfg then predict (env_irregular E) (env_labels E) tensor cfg s else (Some (Objects []), s))"

definition object_result_of :: "env \<Rightarrow> tensor \<Rightarrow> human \<Rightarrow> object_result option \<times> human" where
  "object_result_of E tensor h =
     (let (r, s) = object_call E tensor (config h) (nanodet h) in (r, h\<lparr>nanodet := s\<rparr>))"

text \<open>
  The object stage. In the sequential branch a promise of \<open>predict\<close> that never
  settles stops \<open>detect\<close> at the \<open>await\<close>; in the concurrent branch it stops it at
  \<open>Promise.all\<close>, after the timing entry has been deleted.
\<close>

definition run_object :: "env \<Rightarrow> tensor \<Rightarrow> human \<Rightarrow> object_result option \<times> human" where
  "run_object E tensor h =
     (if async (config h) then
        (let (objectRes, h1) = object_result_of E tensor h
         in (objectRes, h1\<lparr>perf := delete_if_set (perf h1) ''object''\<rparr>))
      else
        (let h1 = h\<lparr>state := ''run:object''\<rparr>;
             (timeStamp, h2) = now E h1;
             (objectRes, h3) = object_result_of E tensor h2
         in case objectRes of
              None \<Rightarrow> (None, h3)
            | Some r \<Rightarrow>
                (let (t, h4) = now E h3;
                     current = trunc (t - timeStamp)
                 in (Some r, if current > 0 then h4\<lparr>perf := (perf h4)(''object'' \<mapsto> current)\<rparr> else h4))))"

definition run_gesture :: "env \<Rightarrow> json \<Rightarrow> json \<Rightarrow> json \<Rightarrow> human \<Rightarrow> json list \<times> human" where
  "run_gesture E faceRes bodyRes handRes h =
     (if gesture_enabled (config h) then
        (let (timeStamp, h1) = now E h;
             gestureRes = env_gesture_face E faceRes @ env_gesture_body E bodyRes
                          @ env_gesture_hand E handRes @ env_gesture_iris E faceRes
         in if \<not> async (config h1)
            then (let (t, h2) = now E h1
                  in (gestureRes, h2\<lparr>perf := (perf h2)(''gesture'' \<mapsto> trunc (t - timeStamp))\<rparr>))
            else (gestureRes, h1\<lparr>perf := delete_if_set (perf h1) ''gesture''\<rparr>))
      else ([], h))"

text \<open>
  \<open>detect\<close>, in three steps. The first (up to the call of \<open>image.process\<close>) merges
  the overrides, checks the input, the backend and the models; it gives what the
  sanity check has resolved the promise with, if anything, and the two clock
  readings \<open>timeStart\<close> and \<open>timeStamp\<close>. After \<open>resolve({ error })\<close> of the sanity
  check there is no \<open>return\<close>: the function goes on, and what it resolves later is
  ignored.
\<close>

definition detect_begin ::
  "env \<Rightarrow> input \<Rightarrow> user_config \<Rightarrow> human \<Rightarrow> outcome option \<times> real \<times> real \<times> human" where
  "detect_begin E inp userConfig h =
     (let h1 = h\<lparr>state := ''config''\<rparr>;
          h2 = h1\<lparr>config := mergeDeep (config h1) userConfig\<rparr>;
          h3 = h2\<lparr>state := ''check''\<rparr>;
          resolved = (case sanity E inp h3 of None \<Rightarrow> None | Some e \<Rightarrow> Some (Error e));
          (timeStart, h4) = now E h3;
          h5 = checkBackend E False h4;
          h6 = human_load E no_overrides h5;
          (timeStamp, h7) = now E h6
      in (resolved, timeStart, timeStamp, h7))"

text \<open>The second step: the four pipelines, in either mode.\<close>

definition detect_pipelines ::
  "env \<Rightarrow> tensor \<Rightarrow> human \<Rightarrow> json \<times> json \<times> json \<times> object_result option \<times> human" where
  "detect_pipelines E tensor h =
     (let (faceRes, h10) = run_face E tensor h;
          (bodyRes, h11) = run_body E tensor h10;
          (handRes, h12) = run_hand E tensor h11;
          (objectRes, h13) = run_object E tensor h12
      in (faceRes, bodyRes, handRes, objectRes, h13))"

text \<open>
  \<open>detect\<close>: what its promise is resolved with (\<open>None\<close>: never), and the state it
  leaves.
\<close>

definition detect :: "env \<Rightarrow> input \<Rightarrow> user_config \<Rightarrow> human \<Rightarrow> outcome option \<times> human" where
  "detect E inp userConfig h =
     (let (resolved, timeStart, timeStamp, h7) = detect_begin E inp userConfig h
      in case env_process E inp (config h7) of
           None \<Rightarrow> (resolve resolved (Error ''could not convert input to tensor''), h7)
         | Some (tensor, cnv) \<Rightarrow>
             (let (t, h8) = now E h7;
                  h9 = h8\<lparr>perf := (perf h8)(''image'' \<mapsto> trunc (t - timeStamp))\<rparr>;
                  (faceRes, bodyRes, handRes, objectRes, h13) = detect_pipelines E tensor h9
              in case objectRes of
                   None \<Rightarrow> (resolved, h13)
                 | Some objRes \<Rightarrow>
                     (let (gestureRes, h14) = run_gesture E faceRes bodyRes handRes h13;
                          (t2, h15) = now E h14;
                          h16 = h15\<lparr>perf := (perf h15)(''total'' \<mapsto> trunc (t2 - timeStart))\<rparr>;
                          h17 = h16\<lparr>state := ''idle''\<rparr>
                      in (resolve resolved
                            (Result \<lparr> face = faceRes, body = bodyRes, hand = handRes,
                                      gesture = gestureRes, object = objRes,
                                      performance = perf h17, canvas = cnv \<rparr>),
                          h17))))"

text \<open>
  Two views of what \<open>detect\<close> resolved with: the entry of the performance report
  under a key, and the object detections (or the error message).
\<close>

definition report_entry :: "outcome option \<Rightarrow> string \<Rightarrow> int option" where
  "report_entry out k = (case out of Some (Result r) \<Rightarrow> performance r k | _ \<Rightarrow> None)"

definition object_view :: "outcome option \<Rightarrow> (string + object_result) option" where
  "object_view out =
     (case out of None \<Rightarrow> None | Some (Error e) \<Rightarrow> Some (Inl e) | Some (Result r) \<Rightarrow> Some (Inr (object r)))"

subsection \<open>\<open>warmup\<close>\<close>

text \<open>
  What a warmup returns: \<open>undefined\<close>, \<open>null\<close> or what \<open>detect\<close> resolved with; \<open>None\<close>
  in its place when the \<open>detect\<close> it awaits never settles.
\<close>

datatype warm = Undefined | NullRes | Detected outcome

definition warmup_detect :: "env \<Rightarrow> string \<Rightarrow> human \<Rightarrow> warm option \<times> human" where
  "warmup_detect E smp h =
     (case detect E (env_sample E smp) (as_user (config h)) h of
        (None, h') \<Rightarrow> (None, h')
      | (Some r, h') \<Rightarrow> (Some (Detected r), h'))"

definition warmupBitmap :: "env \<Rightarrow> human \<Rightarrow> warm option \<times> human" where
  "warmupBitmap E h =
     (if warmup (config h) = ''face'' then warmup_detect E ''face'' h
      else if warmup (config h) = ''full'' then warmup_detect E ''body'' h
      else (Some Undefined, h))"

definition warmupCanvas :: "env \<Rightarrow> human \<Rightarrow> warm option \<times> human" where
  "warmupCanvas E h =
     (if warmup (config h) = ''face'' then warmup_detect E ''face'' h
      else if warmup (config h) = ''full'' \<or> warmup (config h) = ''body'' then warmup_detect E ''body'' h
      else (Some NullRes, h))"

definition warmupNode :: "env \<Rightarrow> human \<Rightarrow> warm option \<times> human" where
  "warmupNode E h =
     (if warmup (config h) = ''face'' then warmup_detect E ''face'' h
      else warmup_detect E ''body'' h)"

text \<open>
  \<open>warmup\<close>, in three steps: up to \<open>this.config.videoOptimized = false\<close> (with the
  value saved), the warmup detection the platform offers, and the rest.
\<close>

definition warmup_prepare :: "env \<Rightarrow> user_config \<Rightarrow> human \<Rightarrow> bool \<times> human" where
  "warmup_prepare E userConfig h =
     (let (t0, h1) = now E h;
          h2 = h1\<lparr>config := mergeDeep (config h1) userConfig\<rparr>;
          save = videoOptimized (config h2)
      in (save, h2\<lparr>config := (config h2)\<lparr>videoOptimized := False\<rparr>\<rparr>))"

definition warmup_run :: "env \<Rightarrow> human \<Rightarrow> warm option \<times> human" where
  "warmup_run E h =
     (if env_createImageBitmap E then warmupBitmap E h
      else if env_Image E then warmupCanvas E h
      else warmupNode E h)"

definition human_warmup :: "env \<Rightarrow> user_config \<Rightarrow> human \<Rightarrow> warm option \<times> human" where
  "human_warmup E userConfig h =
     (let (save, h3) = warmup_prepare E userConfig h;
          (res, h4) = warmup_run E h3
      in case res of
           None \<Rightarrow> (None, h4)
         | Some r \<Rightarrow>
             (let h5 = h4\<lparr>config := (config h4)\<lparr>videoOptimized := save\<rparr>\<rparr>;
                  (t1, h6) = now E h5
              in (Some r, h6)))"

subsection \<open>The execution mode\<close>

text \<open>The instance with the option \<open>async\<close> set to \<open>a\<close> and nothing else changed.\<close>

definition with_async :: "bool \<Rightarrow> human \<Rightarrow> human" where
  "with_async a h = h\<lparr>config := (config h)\<lparr>async := a\<rparr>\<rparr>"

section \<open>Concrete inputs\<close>

text \<open>
  A configuration with the thresholds the library ships with, a label table of ten
  entries, and a raw output of the detection head for the three strides: scores with
  ten classes, features with two bins per box edge. Only cell 0 of the coarsest grid
  scores above the threshold, for class 0.
\<close>

definition example_config :: config where
  "example_config =
     \<lparr> backend = ''webgl'', async = False, videoOptimized = True, profile = False,
       warmup = ''face'', face_enabled = False, face_age_enabled = False,
       face_gender_enabled = False, face_emotion_enabled = False,
       face_embedding_enabled = False, face_description_enabled = False,
       body_enabled = False, body_modelPath = ''../models/blazepose.json'',
       hand_enabled = False, object_enabled = True,
       object_modelPath = ''../models/nanodet.json'', object_minConfidence = 2 / 10,
       object_iouThreshold = 3 / 10, object_maxResults = 10, object_skipFrames = 2,
       gesture_enabled = False \<rparr>"

definition example_labels :: "string list" where
  "example_labels = [''person'', ''bicycle'', ''car'', ''motorcycle'', ''airplane'',
                     ''bus'', ''train'', ''truck'', ''boat'', ''traffic light'']"

text \<open>A tensor library that refuses every irregular feature tensor.\<close>

definition example_irregular :: fallback where
  "example_irregular ft = Inl ShapeError"

definition raw_output :: "real list \<Rightarrow> real list \<Rightarrow> tensor list" where
  "raw_output scores1 features1 =
     [\<lparr> shape = [1, 169, 10], vals = scores1 \<rparr>,
      \<lparr> shape = [1, 169, 8], vals = features1 \<rparr>,
      \<lparr> shape = [1, 676, 10], vals = replicate 6760 0 \<rparr>,
      \<lparr> shape = [1, 676, 8], vals = replicate 5408 0 \<rparr>,
      \<lparr> shape = [1, 2704, 10], vals = replicate 27040 0 \<rparr>,
      \<lparr> shape = [1, 2704, 8], vals = replicate 21632 0 \<rparr>]"

definition example_res :: "tensor list" where
  "example_res =
     raw_output (9 / 10 # replicate 1689 0)
       ([1 / 10, 7 / 10, 6 / 10, 2 / 10, 3 / 10, 4 / 10, 9 / 10, 5 / 10] @ replicate 1344 0)"


definition example_candidate :: candidate where
  "example_candidate =
     \<lparr> id_n = 0, strideSize = 1, score = 9 / 10, class_n = 1, label = ''person'',
       center = [24, 18], centerRaw = [1 / 26, 1 / 26], box = [0, 18, 100, 0],
       boxRaw = [0, 1 / 26, 5 / 32, 0] \<rparr>"

text \<open>
  A raw output in which, on the coarsest grid, the neighbouring cells 28 and 29 (row
  2, columns 2 and 3) score 0.9 and 0.8 for class 0 and cell 28 scores 0.7 for class
  3, and in every row of regression features the second bin of each edge is the
  larger one. The three candidates the decoder builds from it.
\<close>

definition crowded_res :: "tensor list" where
  "crowded_res =
     raw_output ((replicate 1690 0)[280 := 9 / 10, 283 := 7 / 10, 290 := 8 / 10])
       (concat (replicate 169 [0, 1, 0, 1, 0, 1, 0, 1]))"

definition crowded_candidate :: "nat \<Rightarrow> real \<Rightarrow> nat \<Rightarrow> string \<Rightarrow> int \<Rightarrow> real \<Rightarrow> int \<Rightarrow> real \<Rightarrow> candidate" where
  "crowded_candidate n sc cl lb px cx bx x =
     \<lparr> id_n = n, strideSize = 1, score = sc, class_n = cl, label = lb,
       center = [px, 92], centerRaw = [cx, 5 / 26], box = [bx, 54, 100, 75],
       boxRaw = [x, 95 / 832, 5 / 32, 5 / 32] \<rparr>"

definition crowded_candidates :: "candidate list" where
  "crowded_candidates =
     [crowded_candidate 0 (9 / 10) 1 ''person'' 123 (5 / 26) 73 (95 / 832),
      crowded_candidate 1 (7 / 10) 4 ''motorcycle'' 123 (5 / 26) 73 (95 / 832),
      crowded_candidate 2 (8 / 10) 1 ''person'' 172 (7 / 26) 122 (159 / 832)]"

text \<open>A raw output in which no score passes: a frame without objects.\<close>

definition quiet_res :: "tensor list" where
  "quiet_res = raw_output (replicate 1690 0) (replicate 1352 0)"

text \<open>
  A frame of 640 by 480 pixels, a graph that answers every frame with \<open>example_res\<close>
  and one that answers every frame with \<open>quiet_res\<close>, and the module state after
  loading each.
\<close>

definition example_frame :: tensor where
  "example_frame = \<lparr> shape = [1, 480, 640, 3], vals = replicate 921600 0 \<rparr>"

definition example_graph :: "string \<Rightarrow> graph_model" where
  "example_graph path = \<lparr> dim1 = 416, dim2 = 416, executeAsync = (\<lambda>img. example_res) \<rparr>"

definition quiet_graph :: "string \<Rightarrow> graph_model" where
  "quiet_graph path = \<lparr> dim1 = 416, dim2 = 416, executeAsync = (\<lambda>img. quiet_res) \<rparr>"

definition example_model :: model where
  "example_model = \<lparr> dim1 = 416, dim2 = 416, executeAsync = (\<lambda>img. example_res), inputSize = 416 \<rparr>"

definition quiet_model :: model where
  "quiet_model = \<lparr> dim1 = 416, dim2 = 416, executeAsync = (\<lambda>img. quiet_res), inputSize = 416 \<rparr>"

definition example_state :: nanodet_state where
  "example_state = snd (nanodet_load example_graph example_config nanodet_init)"

definition quiet_state :: nanodet_state where
  "quiet_state = snd (nanodet_load quiet_graph example_config nanodet_init)"

text \<open>The module state after one decode of \<open>example_frame\<close>: the cache is filled.\<close>

definition cached_state :: nanodet_state where
  "cached_state = example_state\<lparr>skipped := 0, executed := 1, last_res := [example_candidate]\<rparr>"

text \<open>
  A browser in which the clock advances by 10 ms between two readings, every backend
  can be set, pre-processing turns every input but an absent one into
  \<open>example_frame\<close>, the object model is \<open>example_graph\<close> and the other pipelines find
  nothing; and a new instance with \<open>example_config\<close>.
\<close>

definition example_env :: env where
  "example_env =
     \<lparr> env_labels = example_labels, env_irregular = example_irregular,
       env_loadGraphModel = example_graph,
       env_now = (\<lambda>n. 10 * real n), env_IS_NODE = False, env_IS_BROWSER = True,
       env_setBackend = (\<lambda>b. True),
       env_process = (\<lambda>inp c. case inp of NoInput \<Rightarrow> None | _ \<Rightarrow> Some (example_frame, JNull)),
       env_detectFace = (\<lambda>t c. JArr []), env_estimatePoses = (\<lambda>t c. JArr []),
       env_efficientpose = (\<lambda>t c. JArr []), env_keypoints = (\<lambda>m t. JArr []),
       env_estimateHands = (\<lambda>t c. JArr []), env_gesture_face = (\<lambda>j. []),
       env_gesture_body = (\<lambda>j. []), env_gesture_hand = (\<lambda>j. []),
       env_gesture_iris = (\<lambda>j. []), env_createImageBitmap = True, env_Image = True,
       env_sample = (\<lambda>s. ImageInput 0) \<rparr>"

definition example_human :: human where
  "example_human = Human example_config no_overrides ''webgl''"

section \<open>The decoder: what holds of every emitted candidate\<close>

lemma scan_invariant:
  assumes "scan f ps st = Inr st'"
    and "\<forall>c\<in>set (snd st). P c"
    and "\<And>i j k c. f i j k = Inr (Some c) \<Longrightarrow> P c"
  shows "\<forall>c\<in>set (snd st'). P c"
  using assms(1,2)
proof (induction ps arbitrary: st)
  case Nil
  then show ?case by simp
next
  case (Cons p ps)
  obtain i j where p: "p = (i, j)" by (cases p)
  obtain idn results where st: "st = (idn, results)" by (cases st)
  show ?case
  proof (cases "f i j idn")
    case (Inl e)
    with Cons.prems(1) p st show ?thesis by simp
  next
    case (Inr r)
    show ?thesis
    proof (cases r)
      case None
      from Cons.prems(1) have "scan f ps (idn, results) = Inr st'"
        by (simp add: p st Inr None)
      moreover from Cons.prems(2) have "\<forall>c\<in>set (snd (idn, results)). P c"
        by (simp add: st)
      ultimately show ?thesis by (rule Cons.IH)
    next
      case (Some c)
      have "P c" using assms(3) Inr Some by simp
      from Cons.prems(1) have "scan f ps (Suc idn, results @ [c]) = Inr st'"
        by (simp add: p st Inr Some)
      moreover from Cons.prems(2) \<open>P c\<close> have "\<forall>c\<in>set (snd (Suc idn, results @ [c])). P c"
        by (simp add: st)
      ultimately show ?thesis by (rule Cons.IH)
    qed
  qed
qed

lemma strides_invariant:
  assumes "strides step ss st = Inr st'"
    and "\<forall>c\<in>set (snd st). P c"
    and "\<And>s a b. step s a = Inr b \<Longrightarrow> \<forall>c\<in>set (snd a). P c \<Longrightarrow> \<forall>c\<in>set (snd b). P c"
  shows "\<forall>c\<in>set (snd st'). P c"
  using assms(1,2)
proof (induction ss arbitrary: st)
  case Nil
  then show ?case by simp
next
  case (Cons s ss)
  show ?case
  proof (cases "step s st")
    case (Inl e)
    with Cons.prems(1) show ?thesis by simp
  next
    case (Inr st1)
    from Cons.prems(1) have "strides step ss st1 = Inr st'" by (simp add: Inr)
    moreover from Inr Cons.prems(2) have "\<forall>c\<in>set (snd st1). P c" by (rule assms(3))
    ultimately show ?thesis by (rule Cons.IH)
  qed
qed

lemma stride_step_InrD:
  assumes "stride_step irr labels cfg res isz osh stride st = Inr st'"
  obtains ft boxIdx sT n m scores where
    "featuresT labels res stride = Some ft" and "boxIdx_of irr ft = Inr boxIdx"
    and "scoresT labels res stride = Some sT" and "arraySync sT = Inr (n, m, scores)"
    and "scan (cell labels cfg stride isz osh boxIdx scores) (List.product [0..<n] [0..<m]) st = Inr st'"
  using assms unfolding stride_step_def
  by (auto split: option.splits sum.splits prod.splits)

lemma stride_step_invariant:
  assumes "stride_step irr labels cfg res isz osh stride a = Inr b"
    and "\<forall>c\<in>set (snd a). P c"
    and "\<And>boxIdx scores i j k c.
           cell labels cfg stride isz osh boxIdx scores i j k = Inr (Some c) \<Longrightarrow> P c"
  shows "\<forall>c\<in>set (snd b). P c"
proof -
  from assms(1) obtain boxIdx scores ps where
    "scan (cell labels cfg stride isz osh boxIdx scores) ps a = Inr b"
    by (rule stride_step_InrD)
  then show ?thesis
    using assms(2) assms(3) by (rule scan_invariant)
qed

lemma decode_invariant:
  assumes "decode irr labels res isz osh cfg = Inr rs"
    and "\<And>stride boxIdx scores i j k c.
           cell labels cfg stride isz osh boxIdx scores i j k = Inr (Some c) \<Longrightarrow> P c"
  shows "\<forall>c\<in>set rs. P c"
proof -
  from assms(1) obtain ts idn where
    s: "strides (stride_step irr labels cfg ts isz osh) [1, 2, 4] (0, []) = Inr (idn, rs)"
    unfolding decode_def by (cases res; simp del: strides.simps split: sum.splits prod.splits)
  have "\<forall>c\<in>set (snd (idn, rs)). P c"
  proof (rule strides_invariant [OF s])
    show "\<forall>c\<in>set (snd (0::nat, [])). P c" by simp
  next
    fix s a b
    assume "stride_step irr labels cfg ts isz osh s a = Inr b" "\<forall>c\<in>set (snd a). P c"
    then show "\<forall>c\<in>set (snd b). P c"
      by (rule stride_step_invariant) (rule assms(2))
  qed
  then show ?thesis by simp
qed

lemma set_suppressor:
  "suppressor results cfg = Inr rs \<Longrightarrow> set rs \<subseteq> set results"
  unfolding suppressor_def Let_def
  by (auto simp: in_set_enumerate_eq split: sum.splits)

lemma process_invariant:
  assumes "process irr labels res isz osh cfg = Inr rs"
    and "\<And>stride boxIdx scores i j k c.
           cell labels cfg stride isz osh boxIdx scores i j k = Inr (Some c) \<Longrightarrow> P c"
  shows "\<forall>c\<in>set rs. P c"
proof -
  from assms(1) obtain ds where d: "decode irr labels res isz osh cfg = Inr ds"
    and rs: "suppressor ds cfg = Inr rs"
    unfolding process_def by (auto split: sum.splits)
  from decode_invariant [OF d, where P = P] assms(2) have "\<forall>c\<in>set ds. P c" by blast
  with set_suppressor [OF rs] show ?thesis by blast
qed

lemma cell_SomeD:
  assumes "cell labels cfg stride isz osh boxIdx scores i j k = Inr (Some c)"
  shows "c = cell_result labels stride isz osh (boxIdx ! i) (scores ! i ! j) i j k"
    and "scores ! i ! j > object_minConfidence cfg" and "j \<noteq> 61"
    and "i < length boxIdx" and "j < length labels"
  using assms unfolding cell_def Let_def by (simp_all split: if_splits)

lemma cell_result_class:
  "class_n (cell_result labels stride isz osh bi sc i j k) = j + 1"
  "label (cell_result labels stride isz osh bi sc i j k) = labels ! j"
  by (simp_all add: cell_result_def Let_def)

lemma cell_result_boxRaw:
  "length (boxRaw (cell_result labels stride isz osh bi sc i j k)) = 4"
  "\<forall>v\<in>set (boxRaw (cell_result labels stride isz osh bi sc i j k)). 0 \<le> v \<and> v \<le> 1"
  by (simp_all add: cell_result_def Let_def)

lemma cell_result_fields:
  "id_n (cell_result labels stride isz osh bi sc i j k) = k"
  "strideSize (cell_result labels stride isz osh bi sc i j k) = stride"
  "score (cell_result labels stride isz osh bi sc i j k) = sc"
  by (simp_all add: cell_result_def Let_def)

section \<open>The decoder: which candidates it emits\<close>

lemma scan_cell:
  "scan (cell labels cfg stride isz osh boxIdx scores) ps (idn, rs)
   = (if \<forall>(i, j)\<in>set (filter (\<lambda>(i, j). scores ! i ! j > object_minConfidence cfg \<and> j \<noteq> 61) ps).
            i < length boxIdx \<and> j < length labels
      then Inr (idn + length (filter (\<lambda>(i, j). scores ! i ! j > object_minConfidence cfg \<and> j \<noteq> 61) ps),
                rs @ map (\<lambda>(k, i, j). cell_result labels stride isz osh (boxIdx ! i) (scores ! i ! j) i j k)
                       (zip [idn..<idn + length (filter (\<lambda>(i, j). scores ! i ! j > object_minConfidence cfg \<and> j \<noteq> 61) ps)]
                            (filter (\<lambda>(i, j). scores ! i ! j > object_minConfidence cfg \<and> j \<noteq> 61) ps)))
      else Inl TypeError)"
proof (induction ps arbitrary: idn rs)
  case Nil
  show ?case by simp
next
  case (Cons p ps)
  obtain i j where p: "p = (i, j)" by (cases p)
  let ?P = "\<lambda>(i, j). scores ! i ! j > object_minConfidence cfg \<and> j \<noteq> 61"
  show ?case
  proof (cases "?P (i, j)")
    case False
    then have c: "cell labels cfg stride isz osh boxIdx scores i j idn = Inr None"
      by (auto simp: cell_def)
    from False have f: "filter ?P (p # ps) = filter ?P ps" by (simp add: p)
    show ?thesis unfolding f unfolding p by (simp add: c Cons.IH)
  next
    case True
    then have f: "filter ?P (p # ps) = (i, j) # filter ?P ps" by (simp add: p)
    show ?thesis
    proof (cases "i < length boxIdx \<and> j < length labels")
      case False
      with True have c: "cell labels cfg stride isz osh boxIdx scores i j idn = Inl TypeError"
        by (auto simp: cell_def)
      from False show ?thesis unfolding f unfolding p by (auto simp: c)
    next
      case b: True
      with True have c: "cell labels cfg stride isz osh boxIdx scores i j idn
          = Inr (Some (cell_result labels stride isz osh (boxIdx ! i) (scores ! i ! j) i j idn))"
        by (auto simp: cell_def)
      have u: "[idn..<Suc (idn + n)] = idn # [Suc idn..<Suc (idn + n)]" for n
        by (rule upt_conv_Cons) simp
      show ?thesis unfolding f unfolding p using b
        by (auto simp add: c Cons.IH u simp del: upt_Suc)
    qed
  qed
qed

lemma in_set_map2_upt:
  "c \<in> set (map2 f [a..<a + length sv] sv) \<longleftrightarrow> (\<exists>p<length sv. c = f (a + p) (sv ! p))"
proof -
  let ?l = "map2 f [a..<a + length sv] sv"
  have len: "length ?l = length sv" by simp
  have nth: "?l ! p = f (a + p) (sv ! p)" if "p < length sv" for p using that by simp
  show ?thesis unfolding in_set_conv_nth len using nth by metis
qed

lemma stride_step_emits:
  assumes "stride_step irr labels cfg res isz osh stride st = Inr st'"
  obtains ft boxIdx sT n m scores where
    "featuresT labels res stride = Some ft" and "boxIdx_of irr ft = Inr boxIdx"
    and "scoresT labels res stride = Some sT" and "arraySync sT = Inr (n, m, scores)"
    and "set (snd st) \<subseteq> set (snd st')"
    and "\<And>c. c \<in> set (snd st') \<Longrightarrow> c \<notin> set (snd st) \<Longrightarrow>
           \<exists>i j. i < n \<and> j < m \<and> scores ! i ! j > object_minConfidence cfg \<and> j \<noteq> 61
               \<and> i < length boxIdx \<and> j < length labels
               \<and> c = cell_result labels stride isz osh (boxIdx ! i) (scores ! i ! j) i j (id_n c)"
    and "\<And>i j. i < n \<Longrightarrow> j < m \<Longrightarrow> scores ! i ! j > object_minConfidence cfg \<Longrightarrow> j \<noteq> 61 \<Longrightarrow>
           \<exists>k. cell_result labels stride isz osh (boxIdx ! i) (scores ! i ! j) i j k \<in> set (snd st')"
proof -
  from assms obtain ft boxIdx sT n m scores where
    f: "featuresT labels res stride = Some ft" "boxIdx_of irr ft = Inr boxIdx"
      "scoresT labels res stride = Some sT" "arraySync sT = Inr (n, m, scores)"
    and s: "scan (cell labels cfg stride isz osh boxIdx scores) (List.product [0..<n] [0..<m]) st = Inr st'"
    by (rule stride_step_InrD)
  obtain idn rs where st: "st = (idn, rs)" by (cases st)
  let ?P = "\<lambda>(i, j). scores ! i ! j > object_minConfidence cfg \<and> j \<noteq> 61"
  let ?sv = "filter ?P (List.product [0..<n] [0..<m])"
  let ?f = "\<lambda>k (i, j). cell_result labels stride isz osh (boxIdx ! i) (scores ! i ! j) i j k"
  from s have b: "\<forall>(i, j)\<in>set ?sv. i < length boxIdx \<and> j < length labels"
    unfolding st scan_cell by (simp split: if_splits)
  with s have st': "snd st' = rs @ map2 ?f [idn..<idn + length ?sv] ?sv"
    unfolding st scan_cell by (auto split: if_splits)
  have mem: "c \<in> set (snd st') \<longleftrightarrow> c \<in> set rs \<or> (\<exists>p<length ?sv. c = ?f (idn + p) (?sv ! p))" for c
    unfolding st' by (simp only: set_append Un_iff in_set_map2_upt)
  have 1: "set (snd st) \<subseteq> set (snd st')" using mem st by auto
  have 2: "\<exists>i j. i < n \<and> j < m \<and> scores ! i ! j > object_minConfidence cfg \<and> j \<noteq> 61
               \<and> i < length boxIdx \<and> j < length labels
               \<and> c = cell_result labels stride isz osh (boxIdx ! i) (scores ! i ! j) i j (id_n c)"
    if "c \<in> set (snd st')" "c \<notin> set (snd st)" for c
  proof -
    from that mem st obtain p where p: "p < length ?sv" and c: "c = ?f (idn + p) (?sv ! p)" by auto
    obtain i j where ij: "?sv ! p = (i, j)" by (cases "?sv ! p")
    from p have "?sv ! p \<in> set ?sv" by (rule nth_mem)
    with ij have in_sv: "(i, j) \<in> set ?sv" by simp
    then have "i < n" "j < m" "scores ! i ! j > object_minConfidence cfg" "j \<noteq> 61" by auto
    moreover from in_sv b have "i < length boxIdx" "j < length labels" by auto
    moreover from c ij have "c = cell_result labels stride isz osh (boxIdx ! i) (scores ! i ! j) i j (id_n c)"
      by (simp add: cell_result_fields)
    ultimately show ?thesis by blast
  qed
  have 3: "\<exists>k. cell_result labels stride isz osh (boxIdx ! i) (scores ! i ! j) i j k \<in> set (snd st')"
    if "i < n" "j < m" "scores ! i ! j > object_minConfidence cfg" "j \<noteq> 61" for i j
  proof -
    from that have "(i, j) \<in> set ?sv" by simp
    then obtain p where p: "p < length ?sv" and ij: "?sv ! p = (i, j)"
      unfolding in_set_conv_nth by blast
    have "?f (idn + p) (?sv ! p) \<in> set (snd st')" using mem p by blast
    then show ?thesis unfolding ij by auto
  qed
  from f 1 2 3 show ?thesis by (rule that)
qed

lemma decode_InrD:
  assumes "decode irr labels (Some res) isz osh cfg = Inr rs"
  obtains a1 a2 a3 where
    "stride_step irr labels cfg res isz osh 1 (0, []) = Inr a1"
    and "stride_step irr labels cfg res isz osh 2 a1 = Inr a2"
    and "stride_step irr labels cfg res isz osh 4 a2 = Inr a3"
    and "rs = snd a3"
  using assms unfolding decode_def
  by (auto split: sum.splits prod.splits)

lemma decode_sound:
  assumes "decode irr labels (Some res) isz osh cfg = Inr rs" and "c \<in> set rs"
  obtains stride ft boxIdx sT n m scores i j where
    "stride = 1 \<or> stride = 2 \<or> stride = 4"
    and "featuresT labels res stride = Some ft" and "boxIdx_of irr ft = Inr boxIdx"
    and "scoresT labels res stride = Some sT" and "arraySync sT = Inr (n, m, scores)"
    and "i < n" and "j < m" and "scores ! i ! j > object_minConfidence cfg" and "j \<noteq> 61"
    and "i < length boxIdx" and "j < length labels"
    and "c = cell_result labels stride isz osh (boxIdx ! i) (scores ! i ! j) i j (id_n c)"
proof -
  from assms(1) obtain a1 a2 a3 where
    s1: "stride_step irr labels cfg res isz osh 1 (0, []) = Inr a1"
    and s2: "stride_step irr labels cfg res isz osh 2 a1 = Inr a2"
    and s4: "stride_step irr labels cfg res isz osh 4 a2 = Inr a3"
    and rs: "rs = snd a3"
    by (rule decode_InrD)
  note emit = that
  have origin: thesis
    if "stride = 1 \<or> stride = 2 \<or> stride = 4"
      and "stride_step irr labels cfg res isz osh stride a = Inr b"
      and "c \<in> set (snd b)" and "c \<notin> set (snd a)" for stride a b
  proof -
    from that(2) obtain ft boxIdx sT n m scores where
      f: "featuresT labels res stride = Some ft" "boxIdx_of irr ft = Inr boxIdx"
        "scoresT labels res stride = Some sT" "arraySync sT = Inr (n, m, scores)"
      and new: "\<And>c. c \<in> set (snd b) \<Longrightarrow> c \<notin> set (snd a) \<Longrightarrow>
           \<exists>i j. i < n \<and> j < m \<and> scores ! i ! j > object_minConfidence cfg \<and> j \<noteq> 61
               \<and> i < length boxIdx \<and> j < length labels
               \<and> c = cell_result labels stride isz osh (boxIdx ! i) (scores ! i ! j) i j (id_n c)"
      by (rule stride_step_emits) blast
    from new [OF that(3,4)] obtain i j where
      ij: "i < n" "j < m" "scores ! i ! j > object_minConfidence cfg" "j \<noteq> 61"
      "i < length boxIdx" "j < length labels"
      "c = cell_result labels stride isz osh (boxIdx ! i) (scores ! i ! j) i j (id_n c)"
      by blast
    from that(1) f ij show thesis by (rule emit)
  qed
  show thesis
  proof (cases "c \<in> set (snd a2)")
    case False
    with assms(2) rs show thesis using origin [OF _ s4] by blast
  next
    case a2: True
    show thesis
    proof (cases "c \<in> set (snd a1)")
      case False
      with a2 show thesis using origin [OF _ s2] by blast
    next
      case True
      then show thesis using origin [OF _ s1] by simp
    qed
  qed
qed

lemma decode_complete:
  assumes "decode irr labels (Some res) isz osh cfg = Inr rs"
    and "stride = 1 \<or> stride = 2 \<or> stride = 4"
    and "scoresT labels res stride = Some sT" and "arraySync sT = Inr (n, m, scores)"
    and "i < n" and "j < m" and "scores ! i ! j > object_minConfidence cfg" and "j \<noteq> 61"
  obtains ft boxIdx k where
    "featuresT labels res stride = Some ft" and "boxIdx_of irr ft = Inr boxIdx"
    and "cell_result labels stride isz osh (boxIdx ! i) (scores ! i ! j) i j k \<in> set rs"
proof -
  from assms(1) obtain a1 a2 a3 where
    s1: "stride_step irr labels cfg res isz osh 1 (0, []) = Inr a1"
    and s2: "stride_step irr labels cfg res isz osh 2 a1 = Inr a2"
    and s4: "stride_step irr labels cfg res isz osh 4 a2 = Inr a3"
    and rs: "rs = snd a3"
    by (rule decode_InrD)
  have m2: "set (snd a1) \<subseteq> set (snd a2)" by (rule stride_step_emits [OF s2])
  have m4: "set (snd a2) \<subseteq> set (snd a3)" by (rule stride_step_emits [OF s4])
  have emitted: "\<exists>ft boxIdx k. featuresT labels res stride = Some ft \<and> boxIdx_of irr ft = Inr boxIdx
       \<and> cell_result labels stride isz osh (boxIdx ! i) (scores ! i ! j) i j k \<in> set (snd b)"
    if "stride_step irr labels cfg res isz osh stride a = Inr b" for a b
  proof -
    from that obtain ft boxIdx sT' n' m' scores' where
      f: "featuresT labels res stride = Some ft" "boxIdx_of irr ft = Inr boxIdx"
        "scoresT labels res stride = Some sT'" "arraySync sT' = Inr (n', m', scores')"
      and all: "\<And>i j. i < n' \<Longrightarrow> j < m' \<Longrightarrow> scores' ! i ! j > object_minConfidence cfg \<Longrightarrow> j \<noteq> 61 \<Longrightarrow>
           \<exists>k. cell_result labels stride isz osh (boxIdx ! i) (scores' ! i ! j) i j k \<in> set (snd b)"
      by (rule stride_step_emits) blast
    from f(3,4) assms(3,4) have "n' = n" "m' = m" "scores' = scores" by simp_all
    with all [of i j] assms(5-8) f(1,2) show ?thesis by blast
  qed
  from assms(2) consider "stride = 1" | "stride = 2" | "stride = 4" by blast
  then have "\<exists>ft boxIdx k. featuresT labels res stride = Some ft \<and> boxIdx_of irr ft = Inr boxIdx
       \<and> cell_result labels stride isz osh (boxIdx ! i) (scores ! i ! j) i j k \<in> set rs"
  proof cases
    case 1
    with emitted [of "(0, [])" a1] s1 m2 m4 rs show ?thesis by blast
  next
    case 2
    with emitted [of a1 a2] s2 m4 rs show ?thesis by blast
  next
    case 3
    with emitted [of a2 a3] s4 rs show ?thesis by blast
  qed
  then show thesis using that by blast
qed

section \<open>The index of the maximum, rows and groups\<close>




lemma length_rows [simp]: "length (rows n m vs) = n"
  by (simp add: rows_def)

lemma rows_nth: "i < n \<Longrightarrow> rows n m vs ! i = take m (drop (i * m) vs)"
  by (simp add: rows_def)


lemma rows_nth_nth:
  assumes "i < n" and "j < m" and "length vs = n * m"
  shows "rows n m vs ! i ! j = vs ! (i * m + j)"
proof -
  from assms(1) have "Suc i \<le> n" by simp
  then have "Suc i * m \<le> n * m" by (rule mult_le_mono1)
  with assms(2) have "i * m + j < n * m" by simp
  with assms show ?thesis by (simp add: rows_nth)
qed



section \<open>Evaluating a stride from the cells that pass\<close>

lemma stride_step_eval:
  assumes "featuresT labels res stride = Some ft" and "boxIdx_of irr ft = Inr boxIdx"
    and "scoresT labels res stride = Some sT" and "arraySync sT = Inr (n, m, scores)"
    and "filter (\<lambda>(i, j). scores ! i ! j > object_minConfidence cfg \<and> j \<noteq> 61)
           (List.product [0..<n] [0..<m]) = sv"
    and "\<forall>(i, j)\<in>set sv. i < length boxIdx \<and> j < length labels"
  shows "stride_step irr labels cfg res isz osh stride (idn, rs)
         = Inr (idn + length sv,
                rs @ map2 (\<lambda>k (i, j). cell_result labels stride isz osh (boxIdx ! i) (scores ! i ! j) i j k)
                       [idn..<idn + length sv] sv)"
  unfolding stride_step_def assms(1-4) option.case sum.case prod.case scan_cell assms(5)
  using assms(6) by simp

lemma filter_product_quiet:
  assumes "\<And>i j. i < n \<Longrightarrow> j < m \<Longrightarrow> \<not> P (i, j)"
  shows "filter P (List.product [0..<n] [0..<m]) = []"
  using assms by (auto simp: filter_empty_conv)

lemma product_append:
  "List.product (xs @ ys) zs = List.product xs zs @ List.product ys zs"
  by (induction xs) simp_all

lemma filter_product_band:
  assumes "a \<le> b" and "b \<le> n"
    and "\<And>i j. i < a \<Longrightarrow> j < m \<Longrightarrow> \<not> P (i, j)"
    and "\<And>i j. b \<le> i \<Longrightarrow> i < n \<Longrightarrow> j < m \<Longrightarrow> \<not> P (i, j)"
  shows "filter P (List.product [0..<n] [0..<m]) = filter P (List.product [a..<b] [0..<m])"
proof -
  have "[0..<b] = [0..<a] @ [a..<b]"
    using upt_add_eq_append [of 0 a "b - a"] assms(1) by simp
  moreover have "[0..<n] = [0..<b] @ [b..<n]"
    using upt_add_eq_append [of 0 b "n - b"] assms(2) by simp
  ultimately have "[0..<n] = [0..<a] @ [a..<b] @ [b..<n]" by simp
  then have "filter P (List.product [0..<n] [0..<m])
        = filter P (List.product [0..<a] [0..<m]) @ filter P (List.product [a..<b] [0..<m])
          @ filter P (List.product [b..<n] [0..<m])"
    by (simp add: product_append)
  moreover have "filter P (List.product [0..<a] [0..<m]) = []"
    using assms(3) by (auto simp: filter_empty_conv)
  moreover have "filter P (List.product [b..<n] [0..<m]) = []"
    using assms(4) by (auto simp: filter_empty_conv)
  ultimately show ?thesis by simp
qed

section \<open>Decoding a raw output of the shape of \<open>raw_output\<close>\<close>

lemma raw_output_tensors:
  assumes "stride = 1 \<or> stride = 2 \<or> stride = 4"
  shows "scoresT example_labels (raw_output s f) stride
         = Some \<lparr> shape = [(stride * 13) ^ 2, 10],
                  vals = (if stride = 1 then s else replicate ((stride * 13) ^ 2 * 10) 0) \<rparr>"
    and "featuresT example_labels (raw_output s f) stride
         = Some \<lparr> shape = [(stride * 13) ^ 2, 8],
                  vals = (if stride = 1 then f else replicate ((stride * 13) ^ 2 * 8) 0) \<rparr>"
  using assms
  by (auto simp: scoresT_def featuresT_def raw_output_def example_labels_def shape_at_def
        squeeze_def Let_def)

lemma arraySync_matrix:
  "length v = n * m \<Longrightarrow> arraySync \<lparr> shape = [n, m], vals = v \<rparr> = Inr (n, m, rows n m v)"
  by (simp add: arraySync_def)

lemma boxIdx_of_two_bins:
  "length f = n * 8 \<Longrightarrow>
   boxIdx_of irr \<lparr> shape = [n, 8], vals = f \<rparr>
   = Inr (map (\<lambda>row. map (\<lambda>e. argMax (take 2 (drop (e * 2) row))) [0..<4]) (rows n 8 f))"
  by (simp add: boxIdx_of_def reshape_def argMax2_def)

lemma stride_step_raw_quiet:
  assumes "stride = 2 \<or> stride = 4" and "0 \<le> object_minConfidence cfg"
  shows "stride_step irr example_labels cfg (raw_output s f) isz osh stride (idn, rs) = Inr (idn, rs)"
proof -
  let ?n = "(stride * 13) ^ 2"
  from assms(1) have st: "stride = 1 \<or> stride = 2 \<or> stride = 4" and n1: "stride \<noteq> 1" by auto
  have a1: "featuresT example_labels (raw_output s f) stride
            = Some \<lparr> shape = [?n, 8], vals = replicate (?n * 8) 0 \<rparr>"
    using raw_output_tensors(2) [OF st] n1 by simp
  have a2: "boxIdx_of irr \<lparr> shape = [?n, 8], vals = replicate (?n * 8) 0 \<rparr>
            = Inr (map (\<lambda>row. map (\<lambda>e. argMax (take 2 (drop (e * 2) row))) [0..<4])
                    (rows ?n 8 (replicate (?n * 8) 0)))"
    by (rule boxIdx_of_two_bins) simp
  have a3: "scoresT example_labels (raw_output s f) stride
            = Some \<lparr> shape = [?n, 10], vals = replicate (?n * 10) 0 \<rparr>"
    using raw_output_tensors(1) [OF st] n1 by simp
  have a4: "arraySync \<lparr> shape = [?n, 10], vals = replicate (?n * 10) 0 \<rparr>
            = Inr (?n, 10, rows ?n 10 (replicate (?n * 10) 0))"
    by (rule arraySync_matrix) simp
  have a5: "filter (\<lambda>(i, j). rows ?n 10 (replicate (?n * 10) 0) ! i ! j > object_minConfidence cfg \<and> j \<noteq> 61)
              (List.product [0..<?n] [0..<10]) = []"
  proof (rule filter_product_quiet)
    fix i j :: nat assume ij: "i < ?n" "j < 10"
    then have "i * 10 + j < ?n * 10" by simp
    then have "rows ?n 10 (replicate (?n * 10) 0) ! i ! j = (0::real)"
      using rows_nth_nth [OF ij, of "replicate (?n * 10) 0"] by simp
    with assms(2)
    show "\<not> (case (i, j) of (i, j) \<Rightarrow>
               rows ?n 10 (replicate (?n * 10) 0) ! i ! j > object_minConfidence cfg \<and> j \<noteq> 61)"
      by simp
  qed
  show ?thesis
    using stride_step_eval [OF a1 a2 a3 a4 a5, of isz osh idn rs] by simp
qed

lemma stride_step_raw1:
  assumes "length s = 1690" and "length f = 1352"
    and "filter (\<lambda>(i, j). s ! (i * 10 + j) > object_minConfidence cfg \<and> j \<noteq> 61)
           (List.product [0..<169] [0..<10]) = sv"
  shows "stride_step irr example_labels cfg (raw_output s f) isz osh 1 (idn, rs)
         = Inr (idn + length sv,
                rs @ map2 (\<lambda>k (i, j). cell_result example_labels 1 isz osh
                              (map (\<lambda>e. argMax (take 2 (drop (e * 2) (take 8 (drop (i * 8) f))))) [0..<4])
                              (s ! (i * 10 + j)) i j k)
                       [idn..<idn + length sv] sv)"
proof -
  let ?boxIdx = "map (\<lambda>row. map (\<lambda>e. argMax (take 2 (drop (e * 2) row))) [0..<4]) (rows 169 8 f)"
  let ?scores = "rows 169 10 s"
  have a1: "featuresT example_labels (raw_output s f) 1 = Some \<lparr> shape = [169, 8], vals = f \<rparr>"
    using raw_output_tensors(2) [of 1 s f] by simp
  have a2: "boxIdx_of irr \<lparr> shape = [169, 8], vals = f \<rparr> = Inr ?boxIdx"
    by (rule boxIdx_of_two_bins) (simp add: assms(2))
  have a3: "scoresT example_labels (raw_output s f) 1 = Some \<lparr> shape = [169, 10], vals = s \<rparr>"
    using raw_output_tensors(1) [of 1 s f] by simp
  have a4: "arraySync \<lparr> shape = [169, 10], vals = s \<rparr> = Inr (169, 10, ?scores)"
    by (rule arraySync_matrix) (simp add: assms(1))
  have sc: "?scores ! i ! j = s ! (i * 10 + j)" if "i < 169" "j < 10" for i j
    using rows_nth_nth [OF that, of s] assms(1) by simp
  have bi: "?boxIdx ! i = map (\<lambda>e. argMax (take 2 (drop (e * 2) (take 8 (drop (i * 8) f))))) [0..<4]"
    if "i < 169" for i
    using that by (simp add: rows_nth del: upt_Suc)
  have a5: "filter (\<lambda>(i, j). ?scores ! i ! j > object_minConfidence cfg \<and> j \<noteq> 61)
              (List.product [0..<169] [0..<10]) = sv"
    unfolding assms(3) [symmetric]
    by (rule filter_cong) (auto simp: sc)
  have sub: "i < 169 \<and> j < 10" if "(i, j) \<in> set sv" for i j
    using that unfolding assms(3) [symmetric] by simp
  have ll: "length example_labels = 10" by (simp add: example_labels_def)
  have a6: "\<forall>(i, j)\<in>set sv. i < length ?boxIdx \<and> j < length example_labels"
    unfolding ll using sub by auto
  have m: "map2 (\<lambda>k (i, j). cell_result example_labels 1 isz osh (?boxIdx ! i) (?scores ! i ! j) i j k)
             [idn..<idn + length sv] sv
           = map2 (\<lambda>k (i, j). cell_result example_labels 1 isz osh
                              (map (\<lambda>e. argMax (take 2 (drop (e * 2) (take 8 (drop (i * 8) f))))) [0..<4])
                              (s ! (i * 10 + j)) i j k)
             [idn..<idn + length sv] sv"
  proof (rule map_cong [OF refl])
    fix x assume xin: "x \<in> set (zip [idn..<idn + length sv] sv)"
    obtain k i j where x: "x = (k, i, j)" by (cases x)
    from xin have "(i, j) \<in> set sv" unfolding x by (rule set_zip_rightD)
    with sub have "i < 169" "j < 10" by auto
    then show "(case x of (k, i, j) \<Rightarrow>
                  cell_result example_labels 1 isz osh (?boxIdx ! i) (?scores ! i ! j) i j k)
             = (case x of (k, i, j) \<Rightarrow> cell_result example_labels 1 isz osh
                              (map (\<lambda>e. argMax (take 2 (drop (e * 2) (take 8 (drop (i * 8) f))))) [0..<4])
                              (s ! (i * 10 + j)) i j k)"
      unfolding x by (simp only: prod.case bi sc)
  qed
  show ?thesis
    using stride_step_eval [OF a1 a2 a3 a4 a5 a6, of isz osh idn rs] unfolding m .
qed

section \<open>The concrete inputs, evaluated\<close>

lemma length_concat_replicate: "length (concat (replicate n r)) = n * length r"
  by (induction n) simp_all

lemma take_drop_concat_replicate:
  "length r = m \<Longrightarrow> i < n \<Longrightarrow> take m (drop (i * m) (concat (replicate n r))) = r"
proof (induction n arbitrary: i)
  case 0
  then show ?case by simp
next
  case (Suc n)
  show ?case
  proof (cases i)
    case 0
    with Suc.prems show ?thesis by simp
  next
    case (Suc i')
    with Suc.prems have "i' < n" by simp
    from Suc.IH [OF Suc.prems(1) this] Suc.prems(1) show ?thesis
      by (simp add: Suc)
  qed
qed

lemma cell_result_example:
  "cell_result example_labels 1 416 [640, 480]
     (map (\<lambda>e. argMax (take 2 (drop (e * 2)
        (take 8 (drop (0 * 8) ([1 / 10, 7 / 10, 6 / 10, 2 / 10, 3 / 10, 4 / 10, 9 / 10, 5 / 10] @ replicate 1344 0)))))) [0..<4])
     (9 / 10) 0 0 0 = example_candidate"
  by (simp add: cell_result_def Let_def example_candidate_def example_labels_def argMax_def
        scaleBox_def trunc_def upt_conv_Cons)

lemma decode_example:
  "decode irr example_labels (Some example_res) 416 [640, 480] example_config = Inr [example_candidate]"
proof -
  let ?s = "9 / 10 # replicate 1689 (0::real)"
  let ?f = "[1 / 10, 7 / 10, 6 / 10, 2 / 10, 3 / 10, 4 / 10, 9 / 10, 5 / 10] @ replicate 1344 (0::real)"
  let ?P = "\<lambda>(i, j). ?s ! (i * 10 + j) > object_minConfidence example_config \<and> j \<noteq> 61"
  have c: "0 \<le> object_minConfidence example_config" by (simp add: example_config_def)
  have "filter ?P (List.product [0..<169] [0..<10]) = filter ?P (List.product [0..<1] [0..<10])"
  proof (rule filter_product_band)
    fix i j :: nat assume "1 \<le> i" "i < 169" "j < 10"
    then have "0 < i * 10 + j" "i * 10 + j - 1 < 1689" by simp_all
    then have "?s ! (i * 10 + j) = 0" by (simp add: nth_Cons')
    with c show "\<not> ?P (i, j)" by simp
  qed simp_all
  also have "\<dots> = [(0, 0)]"
    by (simp add: upt_conv_Cons example_config_def)
  finally have sv: "filter ?P (List.product [0..<169] [0..<10]) = [(0, 0)]" .
  have s1: "stride_step irr example_labels example_config example_res 416 [640, 480] 1 (0, [])
            = Inr (1, [example_candidate])"
    unfolding example_res_def
    using stride_step_raw1 [OF _ _ sv, of ?f irr 416 "[640, 480]" 0 "[]"] cell_result_example
    by simp
  have s2: "stride_step irr example_labels example_config example_res 416 [640, 480] 2 (1, [example_candidate])
            = Inr (1, [example_candidate])"
    unfolding example_res_def by (rule stride_step_raw_quiet) (simp_all add: c)
  have s4: "stride_step irr example_labels example_config example_res 416 [640, 480] 4 (1, [example_candidate])
            = Inr (1, [example_candidate])"
    unfolding example_res_def by (rule stride_step_raw_quiet) (simp_all add: c)
  show ?thesis
    using s1 s2 s4 by (simp add: decode_def)
qed

lemma decode_quiet:
  assumes "0 \<le> object_minConfidence cfg"
  shows "decode irr example_labels (Some quiet_res) isz osh cfg = Inr []"
proof -
  let ?P = "\<lambda>(i, j). replicate 1690 (0::real) ! (i * 10 + j) > object_minConfidence cfg \<and> j \<noteq> 61"
  have sv: "filter ?P (List.product [0..<169] [0..<10]) = []"
  proof (rule filter_product_quiet)
    fix i j :: nat assume "i < 169" "j < 10"
    then have "i * 10 + j < 1690" by simp
    with assms show "\<not> ?P (i, j)" by simp
  qed
  have s1: "stride_step irr example_labels cfg quiet_res isz osh 1 (0, []) = Inr (0, [])"
    unfolding quiet_res_def
    using stride_step_raw1 [OF _ _ sv, of "replicate 1352 0" irr isz osh 0 "[]"] by simp
  have s2: "stride_step irr example_labels cfg quiet_res isz osh 2 (0, []) = Inr (0, [])"
    unfolding quiet_res_def by (rule stride_step_raw_quiet) (simp_all add: assms)
  have s4: "stride_step irr example_labels cfg quiet_res isz osh 4 (0, []) = Inr (0, [])"
    unfolding quiet_res_def by (rule stride_step_raw_quiet) (simp_all add: assms)
  show ?thesis
    using s1 s2 s4 by (simp add: decode_def)
qed

lemma decode_crowded:
  "decode irr example_labels (Some crowded_res) 416 [640, 480] example_config = Inr crowded_candidates"
proof -
  let ?s = "(replicate 1690 (0::real))[280 := 9 / 10, 283 := 7 / 10, 290 := 8 / 10]"
  let ?f = "concat (replicate 169 [0, 1, 0, 1, 0, 1, 0, 1 :: real])"
  let ?P = "\<lambda>(i, j). ?s ! (i * 10 + j) > object_minConfidence example_config \<and> j \<noteq> 61"
  have c: "0 \<le> object_minConfidence example_config" by (simp add: example_config_def)
  have nth: "?s ! k = (if k = 290 then 8 / 10 else if k = 283 then 7 / 10 else if k = 280 then 9 / 10 else 0)"
    if "k < 1690" for k
    using that by (simp add: nth_list_update)
  have "filter ?P (List.product [0..<169] [0..<10]) = filter ?P (List.product [28..<30] [0..<10])"
  proof (rule filter_product_band)
    fix i j :: nat assume "i < 28" "j < 10"
    then have "i * 10 + j < 280" by simp
    then have "?s ! (i * 10 + j) = 0" by (simp add: nth)
    with c show "\<not> ?P (i, j)" by simp
  next
    fix i j :: nat assume "30 \<le> i" "i < 169" "j < 10"
    then have "300 \<le> i * 10 + j" "i * 10 + j < 1690" by simp_all
    then have "?s ! (i * 10 + j) = 0" by (simp add: nth)
    with c show "\<not> ?P (i, j)" by simp
  qed simp_all
  also have "\<dots> = [(28, 0), (28, 3), (29, 0)]"
    by (simp add: upt_conv_Cons example_config_def)
  finally have sv: "filter ?P (List.product [0..<169] [0..<10]) = [(28, 0), (28, 3), (29, 0)]" .
  let ?F = "\<lambda>k (i, j). cell_result example_labels 1 416 [640, 480]
                (map (\<lambda>e. argMax (take 2 (drop (e * 2) (take 8 (drop (i * 8) ?f))))) [0..<4])
                (?s ! (i * 10 + j)) i j k"
  have r28: "take 8 (drop (28 * 8) ?f) = [0, 1, 0, 1, 0, 1, 0, 1]"
    by (intro take_drop_concat_replicate) simp_all
  have r29: "take 8 (drop (29 * 8) ?f) = [0, 1, 0, 1, 0, 1, 0, 1]"
    by (intro take_drop_concat_replicate) simp_all
  have F0: "?F 0 (28, 0) = crowded_candidates ! 0"
    unfolding prod.case r28
    by (simp add: cell_result_def Let_def crowded_candidates_def crowded_candidate_def argMax_def
          scaleBox_def trunc_def upt_conv_Cons example_labels_def nth_list_update)
  have F1: "?F (Suc 0) (28, 3) = crowded_candidates ! 1"
    unfolding prod.case r28
    by (simp add: cell_result_def Let_def crowded_candidates_def crowded_candidate_def argMax_def
          scaleBox_def trunc_def upt_conv_Cons example_labels_def nth_list_update)
  have F2: "?F (Suc (Suc 0)) (29, 0) = crowded_candidates ! 2"
    unfolding prod.case r29
    by (simp add: cell_result_def Let_def crowded_candidates_def crowded_candidate_def argMax_def
          scaleBox_def trunc_def upt_conv_Cons example_labels_def nth_list_update numeral_2_eq_2)
  have m: "map2 ?F [0..<0 + length [(28::nat, 0::nat), (28, 3), (29, 0)]] [(28, 0), (28, 3), (29, 0)]
           = [?F 0 (28, 0), ?F (Suc 0) (28, 3), ?F (Suc (Suc 0)) (29, 0)]"
    by (simp add: upt_conv_Cons)
  have cc: "[crowded_candidates ! 0, crowded_candidates ! 1, crowded_candidates ! 2] = crowded_candidates"
    by (simp add: crowded_candidates_def)
  have ls: "length ?s = 1690" and lf: "length ?f = 1352"
    by (simp_all add: length_concat_replicate)
  have s1: "stride_step irr example_labels example_config crowded_res 416 [640, 480] 1 (0, [])
            = Inr (3, crowded_candidates)"
    unfolding crowded_res_def stride_step_raw1 [OF ls lf sv, of irr 416 "[640, 480]" 0 "[]"] m F0 F1 F2 cc
    by simp
  have s2: "stride_step irr example_labels example_config crowded_res 416 [640, 480] 2 (3, crowded_candidates)
            = Inr (3, crowded_candidates)"
    unfolding crowded_res_def by (rule stride_step_raw_quiet) (simp_all add: c)
  have s4: "stride_step irr example_labels example_config crowded_res 416 [640, 480] 4 (3, crowded_candidates)
            = Inr (3, crowded_candidates)"
    unfolding crowded_res_def by (rule stride_step_raw_quiet) (simp_all add: c)
  show ?thesis
    using s1 s2 s4 by (simp add: decode_def)
qed

lemma suppressor_Nil: "suppressor [] cfg = Inr []"
  by (simp add: suppressor_def)

lemma suppressor_single:
  assumes "0 < object_maxResults cfg" and "0 \<le> object_iouThreshold cfg" and "object_iouThreshold cfg \<le> 1"
  shows "suppressor [c] cfg = Inr [c]"
  using assms by (cases "object_maxResults cfg") (simp_all add: suppressor_def nonMaxSuppressionAsync_def)

lemma process_example:
  "process irr example_labels (Some example_res) 416 [640, 480] example_config = Inr [example_candidate]"
proof -
  have "suppressor [example_candidate] example_config = Inr [example_candidate]"
    by (rule suppressor_single) (simp_all add: example_config_def)
  then show ?thesis by (simp add: process_def decode_example)
qed

lemma process_quiet:
  "0 \<le> object_minConfidence cfg \<Longrightarrow> process irr example_labels (Some quiet_res) isz osh cfg = Inr []"
  by (simp add: process_def decode_quiet suppressor_Nil)

lemma nms_select_Nil: "nms_select bs thr n [] = []"
  by (cases n) simp_all

lemma nms_select_Cons:
  "0 < n \<Longrightarrow> nms_select bs thr n (c # cs)
     = c # nms_select bs thr (n - 1) (filter (\<lambda>d. \<not> iou (bs ! d) (bs ! c) \<ge> thr) cs)"
  by (cases n) simp_all

lemma suppressor_crowded:
  "suppressor crowded_candidates example_config = Inr [crowded_candidates ! 0, crowded_candidates ! 2]"
  by (simp add: suppressor_def crowded_candidates_def crowded_candidate_def example_config_def
        nonMaxSuppressionAsync_def iou_def Let_def nms_select_Nil nms_select_Cons)

lemma process_crowded:
  "process irr example_labels (Some crowded_res) 416 [640, 480] example_config
   = Inr [crowded_candidates ! 0, crowded_candidates ! 2]"
  by (simp only: process_def decode_crowded sum.case suppressor_crowded)

section \<open>The suppressor: size and order of its output\<close>

lemma nms_select_length: "length (nms_select bs thr n cs) \<le> n"
  by (induction bs thr n cs rule: nms_select.induct) simp_all

lemma nms_select_subset: "set (nms_select bs thr n cs) \<subseteq> set cs"
  by (induction bs thr n cs rule: nms_select.induct) auto

lemma length_filter_enumerate:
  "length (filter (\<lambda>(idx, a). idx \<in> S) (enumerate 0 rs)) \<le> card S" if "finite S"
proof -
  have "length (filter (\<lambda>(idx, a). idx \<in> S) (enumerate 0 rs))
        = length (map fst (filter ((\<lambda>idx. idx \<in> S) \<circ> fst) (enumerate 0 rs)))"
    by (simp add: comp_def case_prod_unfold)
  also have "\<dots> = length (filter (\<lambda>idx. idx \<in> S) (map fst (enumerate 0 rs)))"
    by (simp only: filter_map)
  also have "\<dots> = card {i. i < length rs \<and> i \<in> S}"
  proof -
    have "{i. i < length rs \<and> [0..<length rs] ! i \<in> S} = {i. i < length rs \<and> i \<in> S}"
      by auto
    then show ?thesis by (simp add: length_filter_conv_card)
  qed
  also have "\<dots> \<le> card S"
    using that by (intro card_mono) auto
  finally show ?thesis .
qed

lemma suppressor_length:
  assumes "suppressor rs cfg = Inr out"
  shows "length out \<le> object_maxResults cfg"
proof (cases rs)
  case Nil
  with assms show ?thesis by (simp add: suppressor_def)
next
  case (Cons r rs')
  let ?idx = "nms_select (map boxRaw rs) (object_iouThreshold cfg) (object_maxResults cfg)
                (sort_key (\<lambda>i. - (map score rs ! i)) [0..<length (map score rs)])"
  from assms Cons have out: "out = sort_key (\<lambda>a. - score a)
          (map snd (filter (\<lambda>(idx, a). idx \<in> set ?idx) (enumerate 0 rs)))"
    unfolding suppressor_def Let_def nonMaxSuppressionAsync_def
    by (simp split: if_splits)
  have "length (filter (\<lambda>(idx, a). idx \<in> set ?idx) (enumerate 0 rs)) \<le> card (set ?idx)"
    by (rule length_filter_enumerate) simp
  also have "\<dots> \<le> length ?idx" by (rule card_length)
  also have "\<dots> \<le> object_maxResults cfg" by (rule nms_select_length)
  finally show ?thesis unfolding out by simp
qed

lemma suppressor_sorted:
  assumes "suppressor rs cfg = Inr out"
  shows "sorted_wrt (\<lambda>a b. score a \<ge> score b) out"
proof -
  from assms obtain xs where "out = sort_key (\<lambda>a. - score a) xs"
    unfolding suppressor_def Let_def by (auto split: sum.splits)
  then have "sorted (map (\<lambda>a. - score a) out)" by (simp add: sorted_sort_key)
  then show ?thesis by (simp add: sorted_map)
qed

section \<open>The frame-skip cache of \<open>predict\<close>\<close>

lemma predict_cached:
  assumes "model s = Some m" and "videoOptimized cfg" and "skipped s < object_skipFrames cfg"
    and "last_res s \<noteq> []"
  shows "predict irr labels img cfg s = (Some (Objects (last_res s)), s\<lparr>skipped := skipped s + 1\<rparr>)"
  using assms by (simp add: predict_def)

lemma predict_decode:
  assumes "model s = Some m"
    and "\<not> (videoOptimized cfg \<and> skipped s < object_skipFrames cfg \<and> last_res s \<noteq> [])"
    and "object_enabled cfg" and "length (shape img) = 4"
  shows "predict irr labels img cfg s =
           (case process irr labels (Some (executeAsync m img)) (inputSize m) [shape img ! 2, shape img ! 1] cfg of
              Inl e \<Rightarrow> (None, s\<lparr>skipped := (if videoOptimized cfg then 0 else MAX_SAFE_INTEGER),
                                 executed := executed s + 1\<rparr>)
            | Inr obj \<Rightarrow> (Some (Objects obj),
                          s\<lparr>skipped := (if videoOptimized cfg then 0 else MAX_SAFE_INTEGER),
                            executed := executed s + 1, last_res := obj\<rparr>))"
  using assms by (auto simp: predict_def Let_def split: sum.splits)

lemma predict_four:
  assumes m: "model s = Some m" and vo: "videoOptimized cfg" and sf: "object_skipFrames cfg = 2"
    and en: "object_enabled cfg" and empty: "last_res s = []"
    and f: "length (shape f1) = 4" "length (shape f4) = 4"
    and r1: "process irr labels (Some (executeAsync m f1)) (inputSize m) [shape f1 ! 2, shape f1 ! 1] cfg = Inr r1"
    and ne: "r1 \<noteq> []"
  shows "map snd (fst (predict_seq irr labels cfg [f1, f2, f3, f4] s))
           = [executed s + 1, executed s + 1, executed s + 1, executed s + 2]"
    and "map fst (take 3 (fst (predict_seq irr labels cfg [f1, f2, f3, f4] s)))
           = [Some (Objects r1), Some (Objects r1), Some (Objects r1)]"
proof -
  let ?s1 = "s\<lparr>skipped := 0, executed := executed s + 1, last_res := r1\<rparr>"
  let ?s2 = "?s1\<lparr>skipped := 1\<rparr>"
  let ?s3 = "?s1\<lparr>skipped := 2\<rparr>"
  have p1: "predict irr labels f1 cfg s = (Some (Objects r1), ?s1)"
    using predict_decode [OF m _ en f(1), where labels = labels] empty vo r1 by simp
  have p2: "predict irr labels f2 cfg ?s1 = (Some (Objects r1), ?s2)"
    using predict_cached [where s = ?s1 and m = m and cfg = cfg and labels = labels and img = f2] m vo sf ne by simp
  have p3: "predict irr labels f3 cfg ?s2 = (Some (Objects r1), ?s3)"
    using predict_cached [where s = ?s2 and m = m and cfg = cfg and labels = labels and img = f3] m vo sf ne by simp
  obtain r4 s4 where p4: "predict irr labels f4 cfg ?s3 = (r4, s4)" and e4: "executed s4 = executed s + 2"
    using predict_decode [where s = ?s3 and m = m and cfg = cfg and img = f4 and labels = labels] m sf en f(2)
    by (cases "process irr labels (Some (executeAsync m f4)) (inputSize m) [shape f4 ! 2, shape f4 ! 1] cfg")
       simp_all
  show "map snd (fst (predict_seq irr labels cfg [f1, f2, f3, f4] s))
           = [executed s + 1, executed s + 1, executed s + 1, executed s + 2]"
    by (simp only: predict_seq.simps p1 p2 p3 p4 Let_def prod.case fst_conv snd_conv list.map e4)
       simp
  show "map fst (take 3 (fst (predict_seq irr labels cfg [f1, f2, f3, f4] s)))
           = [Some (Objects r1), Some (Objects r1), Some (Objects r1)]"
    by (simp only: predict_seq.simps p1 p2 p3 p4 Let_def prod.case fst_conv snd_conv) simp
qed

lemma example_state_eq:
  "example_state = \<lparr> model = Some example_model,
                     last_res = [], skipped = MAX_SAFE_INTEGER, loaded = 1, executed = 0 \<rparr>"
  by (simp add: example_state_def nanodet_load_def nanodet_init_def example_graph_def example_model_def Let_def)

lemma quiet_state_eq:
  "quiet_state = \<lparr> model = Some quiet_model,
                     last_res = [], skipped = MAX_SAFE_INTEGER, loaded = 1, executed = 0 \<rparr>"
  by (simp add: quiet_state_def nanodet_load_def nanodet_init_def quiet_graph_def quiet_model_def Let_def)

lemma example_config_simps:
  "0 \<le> object_minConfidence example_config" "object_enabled example_config"
  "videoOptimized example_config" "object_skipFrames example_config = 2"
  "0 < object_maxResults example_config"
  by (simp_all add: example_config_def)

lemma example_frame_shape:
  "length (shape example_frame) = 4" "shape example_frame ! 2 = 640" "shape example_frame ! 1 = 480"
  by (simp_all add: example_frame_def)

lemma predict_quiet:
  assumes "model s = Some quiet_model" and "last_res s = []"
  shows "predict example_irregular example_labels example_frame example_config s
         = (Some (Objects []), s\<lparr>skipped := 0, executed := executed s + 1, last_res := []\<rparr>)"
proof -
  have "process example_irregular example_labels (Some quiet_res) isz osh example_config = Inr []" for isz osh
    using example_config_simps(1) by (rule process_quiet)
  then show ?thesis
    using predict_decode [OF assms(1) _ example_config_simps(2) example_frame_shape(1),
            where labels = example_labels] assms(2) example_config_simps(3)
    by (simp add: quiet_model_def)
qed

lemma predict_seq_quiet:
  "map snd (fst (predict_seq example_irregular example_labels example_config
       [example_frame, example_frame, example_frame, example_frame] quiet_state)) = [1, 2, 3, 4]"
  by (simp add: quiet_state_eq predict_quiet)

lemma process_example_model:
  "process example_irregular example_labels (Some (executeAsync example_model example_frame)) (inputSize example_model)
     [shape example_frame ! 2, shape example_frame ! 1] example_config = Inr [example_candidate]"
  using process_example by (simp add: example_model_def example_frame_def)

section \<open>The options \<open>predict\<close> depends on\<close>

lemma cell_cfg:
  assumes "object_minConfidence c = object_minConfidence c'"
  shows "cell labels c = cell labels c'"
  by (intro ext) (simp add: cell_def assms)

lemma stride_step_cfg:
  assumes "object_minConfidence c = object_minConfidence c'"
  shows "stride_step irr labels c = stride_step irr labels c'"
  by (intro ext) (simp only: stride_step_def cell_cfg [OF assms])

lemma decode_cfg:
  assumes "object_minConfidence c = object_minConfidence c'"
  shows "decode irr labels res isz osh c = decode irr labels res isz osh c'"
  by (simp only: decode_def stride_step_cfg [OF assms])

lemma process_cfg:
  assumes "object_minConfidence c = object_minConfidence c'"
    and "object_iouThreshold c = object_iouThreshold c'"
    and "object_maxResults c = object_maxResults c'"
  shows "process irr labels res isz osh c = process irr labels res isz osh c'"
proof -
  have s: "suppressor rs c = suppressor rs c'" for rs
    by (simp only: suppressor_def assms)
  show ?thesis
    unfolding process_def decode_cfg [OF assms(1)] by (simp add: s cong: sum.case_cong)
qed

lemma predict_cfg:
  assumes "object_minConfidence c = object_minConfidence c'"
    and "object_iouThreshold c = object_iouThreshold c'"
    and "object_maxResults c = object_maxResults c'"
    and "object_skipFrames c = object_skipFrames c'"
    and "object_enabled c = object_enabled c'"
    and "videoOptimized c = videoOptimized c'"
    and "profile c = profile c'"
  shows "predict irr labels img c s = predict irr labels img c' s"
proof (cases "model s")
  case None
  then show ?thesis by (simp add: predict_def)
next
  case (Some m)
  have p: "process irr labels r isz osh c = process irr labels r isz osh c'" for r isz osh
    by (rule process_cfg [OF assms(1-3)])
  show ?thesis
    unfolding predict_def Some option.case assms(4-7) p ..
qed

lemma predict_upd [simp]:
  "predict irr labels img (c\<lparr>async := a\<rparr>) s = predict irr labels img c s"
  "predict irr labels img (c\<lparr>backend := b\<rparr>) s = predict irr labels img c s"
  by (rule predict_cfg; simp)+

section \<open>The index table of a regular feature tensor\<close>






section \<open>Configuration merge and model loading\<close>

lemma over_simps [simp]: "over None v = v" "over (Some x) v = x"
  by (simp_all add: over_def)

lemma over_over [simp]: "over u (over u v) = over u v"
  by (cases u) simp_all

lemma mergeDeep_no_overrides [simp]: "mergeDeep c no_overrides = c"
  by (simp add: mergeDeep_def no_overrides_def)

lemma mergeDeep_as_user [simp]: "mergeDeep c (as_user c') = c'"
  by (simp add: mergeDeep_def as_user_def)

lemma wanted_backend [simp]: "wanted (c\<lparr>backend := b\<rparr>) cap = wanted c cap"
  by (cases cap) simp_all

lemma wanted_async [simp]: "wanted (c\<lparr>async := a\<rparr>) cap = wanted c cap"
  by (cases cap) simp_all

lemma wanted_mergeDeep_again:
  "wanted (mergeDeep ((mergeDeep c u)\<lparr>backend := b\<rparr>) u) cap = wanted (mergeDeep c u) cap"
  "wanted (mergeDeep (mergeDeep c u) u) cap = wanted (mergeDeep c u) cap"
  by (cases cap; simp add: mergeDeep_def)+

lemma now_simps [simp]:
  "fst (now E h) = env_now E (ticks h)"
  "snd (now E h) = h\<lparr>ticks := Suc (ticks h)\<rparr>"
  by (simp_all add: now_def)

lemma module_load_frame [simp]:
  "config (snd (module_load E cap h)) = config h"
  "models (snd (module_load E cap h)) = models h"
  "state (snd (module_load E cap h)) = state h"
  "perf (snd (module_load E cap h)) = perf h"
  "checkSanity (snd (module_load E cap h)) = checkSanity h"
  "firstRun (snd (module_load E cap h)) = firstRun h"
  "tf_backend (snd (module_load E cap h)) = tf_backend h"
  "ticks (snd (module_load E cap h)) = ticks h"
  by (cases cap; simp add: module_load_def Let_def split: prod.splits)+

lemma module_load_loads:
  "loads_of (snd (module_load E c h)) cap
   = loads_of h cap + (if cap = c \<and> module_fresh h c then 1 else 0)"
  by (cases c; cases cap;
      simp add: module_load_def loads_of_def module_fresh_def nanodet_load_def blazepose_load_def Let_def
           split: option.splits)

lemma module_load_fresh:
  "cap \<noteq> c \<Longrightarrow> module_fresh (snd (module_load E c h)) cap = module_fresh h cap"
  by (cases c; cases cap;
      simp add: module_load_def module_fresh_def nanodet_load_def blazepose_load_def Let_def
           split: option.splits)

lemma load_sync_step_frame [simp]:
  "config (load_sync_step E c h) = config h"
  "state (load_sync_step E c h) = state h"
  "perf (load_sync_step E c h) = perf h"
  "checkSanity (load_sync_step E c h) = checkSanity h"
  "firstRun (load_sync_step E c h) = firstRun h"
  "tf_backend (load_sync_step E c h) = tf_backend h"
  "ticks (load_sync_step E c h) = ticks h"
  by (simp_all add: load_sync_step_def Let_def case_prod_beta)

lemma load_sync_step_models:
  "models (load_sync_step E c h) cap
   = (if cap = c \<and> wanted (config h) c \<and> models h c = None
      then Some (fst (module_load E c h)) else models h cap)"
  by (simp add: load_sync_step_def Let_def case_prod_beta)

lemma load_sync_step_loads:
  "loads_of (load_sync_step E c h) cap
   = loads_of h cap + (if cap = c \<and> wanted (config h) c \<and> models h c = None \<and> module_fresh h c
                        then 1 else 0)"
proof -
  have "loads_of (h'\<lparr>models := ms\<rparr>) k = loads_of h' k" for h' ms k
    by (simp add: loads_of_def split: capability.splits)
  then show ?thesis
    using module_load_loads [of E c h cap]
    by (auto simp: load_sync_step_def Let_def case_prod_beta)
qed

lemma load_sync_step_fresh:
  "cap \<noteq> c \<Longrightarrow> module_fresh (load_sync_step E c h) cap = module_fresh h cap"
proof -
  have "module_fresh (h'\<lparr>models := ms\<rparr>) k = module_fresh h' k" for h' ms k
    by (simp add: module_fresh_def split: capability.splits)
  then show "cap \<noteq> c \<Longrightarrow> module_fresh (load_sync_step E c h) cap = module_fresh h cap"
    using module_load_fresh [of cap c E h]
    by (simp add: load_sync_step_def Let_def case_prod_beta)
qed

lemma load_sync_step_idle:
  "\<not> (wanted (config h) c \<and> models h c = None) \<Longrightarrow> load_sync_step E c h = h"
  by (auto simp: load_sync_step_def)

lemma fold_load_sync_step_frame:
  "config (fold (load_sync_step E) caps h) = config h"
  "state (fold (load_sync_step E) caps h) = state h"
  "perf (fold (load_sync_step E) caps h) = perf h"
  "checkSanity (fold (load_sync_step E) caps h) = checkSanity h"
  "firstRun (fold (load_sync_step E) caps h) = firstRun h"
  "tf_backend (fold (load_sync_step E) caps h) = tf_backend h"
  "ticks (fold (load_sync_step E) caps h) = ticks h"
  by (induction caps arbitrary: h; simp)+

lemma fold_load_sync_step_idle:
  "\<forall>c\<in>set caps. \<not> (wanted (config h) c \<and> models h c = None)
   \<Longrightarrow> fold (load_sync_step E) caps h = h"
  by (induction caps) (simp_all add: load_sync_step_idle)

lemma fold_load_sync_step_models:
  assumes "distinct caps"
  shows "models (fold (load_sync_step E) caps h) cap = None
         \<longleftrightarrow> models h cap = None \<and> \<not> (cap \<in> set caps \<and> wanted (config h) cap)"
  using assms
proof (induction caps arbitrary: h)
  case Nil
  then show ?case by simp
next
  case (Cons c caps)
  then show ?case
    by (auto simp: load_sync_step_models)
qed

lemma fold_load_sync_step_loads:
  assumes "distinct caps"
  shows "loads_of (fold (load_sync_step E) caps h) cap
         = loads_of h cap + (if cap \<in> set caps \<and> wanted (config h) cap \<and> models h cap = None
                                \<and> module_fresh h cap then 1 else 0)"
  using assms
proof (induction caps arbitrary: h)
  case Nil
  then show ?case by simp
next
  case (Cons c caps)
  from Cons.prems have d: "distinct caps" and nc: "c \<notin> set caps" by simp_all
  show ?case
  proof (cases "cap = c")
    case True
    with nc have "cap \<notin> set caps" by simp
    with Cons.IH [OF d, of "load_sync_step E c h"] True show ?thesis
      by (simp add: load_sync_step_loads)
  next
    case False
    with Cons.IH [OF d, of "load_sync_step E c h"] show ?thesis
      by (simp add: load_sync_step_loads load_sync_step_models load_sync_step_fresh)
  qed
qed

lemma module_load_models_upd:
  "module_load E cap (h\<lparr>models := ms\<rparr>)
   = (fst (module_load E cap h), (snd (module_load E cap h))\<lparr>models := ms\<rparr>)"
  by (cases cap; simp add: module_load_def Let_def case_prod_beta)

lemma load_async_entry_frame [simp]:
  "models (snd (load_async_entry E cap h)) = models h"
  "config (snd (load_async_entry E cap h)) = config h"
  by (simp_all add: load_async_entry_def Let_def case_prod_beta split: option.splits)

lemma load_async_entry_upd:
  assumes "cap \<noteq> c"
  shows "load_async_entry E cap (h\<lparr>models := (models h)(c := v)\<rparr>)
         = (fst (load_async_entry E cap h),
            (snd (load_async_entry E cap h))\<lparr>models := (models h)(c := v)\<rparr>)"
  using assms
  by (simp add: load_async_entry_def Let_def case_prod_beta module_load_models_upd split: option.splits)

lemma load_async_entries_frame [simp]:
  "models (snd (load_async_entries E caps h)) = models h"
  "config (snd (load_async_entries E caps h)) = config h"
  by (induction caps arbitrary: h; simp add: Let_def case_prod_beta)+

lemma load_async_entries_upd:
  assumes "c \<notin> set caps"
  shows "load_async_entries E caps (h\<lparr>models := (models h)(c := v)\<rparr>)
         = (fst (load_async_entries E caps h),
            (snd (load_async_entries E caps h))\<lparr>models := (models h)(c := v)\<rparr>)"
  using assms
proof (induction caps arbitrary: h)
  case Nil
  then show ?case by simp
next
  case (Cons a caps)
  then have ne: "a \<noteq> c" and nin: "c \<notin> set caps" by auto
  let ?h1 = "snd (load_async_entry E a h)"
  have m: "models ?h1 = models h" by simp
  have "load_async_entries E caps (?h1\<lparr>models := (models h)(c := v)\<rparr>)
        = (fst (load_async_entries E caps ?h1),
           (snd (load_async_entries E caps ?h1))\<lparr>models := (models h)(c := v)\<rparr>)"
    using Cons.IH [OF nin, of ?h1] unfolding m .
  then show ?case
    by (simp only: load_async_entries.simps load_async_entry_upd [OF ne] Let_def case_prod_beta
          fst_conv snd_conv)
qed

lemma load_sync_step_entry:
  "load_sync_step E c h
   = (snd (load_async_entry E c h))\<lparr>models := (models h)(c := fst (load_async_entry E c h))\<rparr>"
proof (cases "models h c")
  case None
  then have "(models h)(c := None) = models h" by (simp add: fun_upd_idem_iff)
  with None show ?thesis
    by (simp add: load_sync_step_def load_async_entry_def Let_def case_prod_beta)
next
  case (Some m)
  then have "(models h)(c \<mapsto> m) = models h" by (simp add: fun_upd_idem_iff)
  with Some show ?thesis
    by (simp add: load_sync_step_def load_async_entry_def)
qed

lemma load_async_fold:
  assumes "distinct caps"
  shows "fold (\<lambda>(cap, v) h'. h'\<lparr>models := (models h')(cap := v)\<rparr>)
              (zip caps (fst (load_async_entries E caps h))) (snd (load_async_entries E caps h))
         = fold (load_sync_step E) caps h"
  using assms
proof (induction caps arbitrary: h)
  case Nil
  then show ?case by simp
next
  case (Cons c caps)
  then have d: "distinct caps" and nin: "c \<notin> set caps" by simp_all
  let ?v = "fst (load_async_entry E c h)"
  let ?h1 = "snd (load_async_entry E c h)"
  let ?h1' = "?h1\<lparr>models := (models h)(c := ?v)\<rparr>"
  have step: "load_sync_step E c h = ?h1'" by (rule load_sync_step_entry)
  have ent: "load_async_entries E caps ?h1'
             = (fst (load_async_entries E caps ?h1),
                (snd (load_async_entries E caps ?h1))\<lparr>models := (models h)(c := ?v)\<rparr>)"
    using load_async_entries_upd [OF nin, of E ?h1 ?v] unfolding load_async_entry_frame(1) .
  have "fold (load_sync_step E) (c # caps) h = fold (load_sync_step E) caps ?h1'"
    by (simp add: step)
  also have "\<dots> = fold (\<lambda>(cap, v) h'. h'\<lparr>models := (models h')(cap := v)\<rparr>)
              (zip caps (fst (load_async_entries E caps ?h1')))
              (snd (load_async_entries E caps ?h1'))"
    by (rule Cons.IH [OF d, symmetric])
  also have "\<dots> = fold (\<lambda>(cap, v) h'. h'\<lparr>models := (models h')(cap := v)\<rparr>)
              (zip (c # caps) (fst (load_async_entries E (c # caps) h)))
              (snd (load_async_entries E (c # caps) h))"
    by (simp only: load_async_entries.simps ent Let_def case_prod_beta fst_conv snd_conv
          zip_Cons_Cons fold_simps load_async_entries_frame(1) load_async_entry_frame(1))
  finally show ?case by (rule sym)
qed

lemma load_async_eq_sync: "load_async E h = load_sync E h"
proof -
  have "distinct load_order" by (simp add: load_order_def)
  from load_async_fold [OF this, of E h] show ?thesis
    by (simp add: load_async_def load_sync_def Let_def case_prod_beta)
qed

lemma load_sync_frame [simp]:
  "config (load_sync E h) = config h"
  "state (load_sync E h) = state h"
  "perf (load_sync E h) = perf h"
  "checkSanity (load_sync E h) = checkSanity h"
  "firstRun (load_sync E h) = firstRun h"
  "tf_backend (load_sync E h) = tf_backend h"
  "ticks (load_sync E h) = ticks h"
  by (simp_all add: load_sync_def fold_load_sync_step_frame)

lemma load_sync_idle:
  "\<forall>c. wanted (config h) c \<longrightarrow> models h c \<noteq> None \<Longrightarrow> load_sync E h = h"
  unfolding load_sync_def by (rule fold_load_sync_step_idle) auto

lemma wanted_in_load_order: "wanted c cap \<Longrightarrow> cap \<in> set load_order"
  by (cases cap) (simp_all add: load_order_def)

lemma load_sync_models:
  "models (load_sync E h) cap = None \<longleftrightarrow> models h cap = None \<and> \<not> wanted (config h) cap"
proof -
  have "distinct load_order" by (simp add: load_order_def)
  from fold_load_sync_step_models [OF this, of E h cap] show ?thesis
    using wanted_in_load_order [of "config h" cap] by (auto simp: load_sync_def)
qed

lemma load_sync_loads:
  "loads_of (load_sync E h) cap
   = loads_of h cap + (if wanted (config h) cap \<and> models h cap = None \<and> module_fresh h cap then 1 else 0)"
proof -
  have "distinct load_order" by (simp add: load_order_def)
  from fold_load_sync_step_loads [OF this, of E h cap] show ?thesis
    using wanted_in_load_order [of "config h" cap] by (auto simp: load_sync_def)
qed

lemma loads_of_upd [simp]:
  "loads_of (h\<lparr>state := s\<rparr>) cap = loads_of h cap"
  "loads_of (h\<lparr>ticks := n\<rparr>) cap = loads_of h cap"
  "loads_of (h\<lparr>config := c\<rparr>) cap = loads_of h cap"
  "loads_of (h\<lparr>perf := p\<rparr>) cap = loads_of h cap"
  "loads_of (h\<lparr>firstRun := f\<rparr>) cap = loads_of h cap"
  "loads_of (h\<lparr>tf_backend := b\<rparr>) cap = loads_of h cap"
  "loads_of (h\<lparr>models := ms\<rparr>) cap = loads_of h cap"
  by (simp_all add: loads_of_def split: capability.splits)

lemma module_fresh_upd [simp]:
  "module_fresh (h\<lparr>state := s\<rparr>) cap = module_fresh h cap"
  "module_fresh (h\<lparr>ticks := n\<rparr>) cap = module_fresh h cap"
  "module_fresh (h\<lparr>config := c\<rparr>) cap = module_fresh h cap"
  "module_fresh (h\<lparr>perf := p\<rparr>) cap = module_fresh h cap"
  "module_fresh (h\<lparr>firstRun := f\<rparr>) cap = module_fresh h cap"
  "module_fresh (h\<lparr>tf_backend := b\<rparr>) cap = module_fresh h cap"
  "module_fresh (h\<lparr>models := ms\<rparr>) cap = module_fresh h cap"
  by (simp_all add: module_fresh_def split: capability.splits)

lemma checkBackend_frame [simp]:
  "models (checkBackend E f h) = models h"
  "checkSanity (checkBackend E f h) = checkSanity h"
  "firstRun (checkBackend E f h) = firstRun h"
  "nanodet (checkBackend E f h) = nanodet h"
  "blazepose (checkBackend E f h) = blazepose h"
  "load_calls (checkBackend E f h) = load_calls h"
  by (simp_all add: checkBackend_def Let_def case_prod_beta)

lemma checkBackend_config:
  "config (checkBackend E f h) = (config h)\<lparr>backend := backend (config (checkBackend E f h))\<rparr>"
  by (simp add: checkBackend_def Let_def case_prod_beta)

lemma checkBackend_loads [simp]:
  "loads_of (checkBackend E f h) cap = loads_of h cap"
  "module_fresh (checkBackend E f h) cap = module_fresh h cap"
  by (simp_all add: loads_of_def module_fresh_def split: capability.splits)

lemma checkBackend_wanted [simp]:
  "wanted (config (checkBackend E f h)) cap = wanted (config h) cap"
  by (subst checkBackend_config) simp

lemma load_entry_frame [simp]:
  "models (load_entry E u h) = models h"
  "firstRun (load_entry E u h) = firstRun h"
  "checkSanity (load_entry E u h) = checkSanity h"
  "nanodet (load_entry E u h) = nanodet h"
  "blazepose (load_entry E u h) = blazepose h"
  "load_calls (load_entry E u h) = load_calls h"
  "loads_of (load_entry E u h) cap = loads_of h cap"
  "module_fresh (load_entry E u h) cap = module_fresh h cap"
  "wanted (config (load_entry E u h)) cap = wanted (mergeDeep (config h) u) cap"
  by (simp_all add: load_entry_def Let_def)

lemma load_entry_config:
  "config (load_entry E u h)
   = (mergeDeep (config h) u)\<lparr>backend := backend (config (load_entry E u h))\<rparr>"
proof (cases "firstRun h")
  case True
  let ?h3 = "h\<lparr>state := ''load'', ticks := Suc (ticks h), config := mergeDeep (config h) u\<rparr>"
  have e: "load_entry E u h = checkBackend E True ?h3"
    by (simp add: load_entry_def Let_def True)
  have c: "config ?h3 = mergeDeep (config h) u" by simp
  show ?thesis
    unfolding e using checkBackend_config [of E True ?h3] unfolding c .
next
  case False
  then show ?thesis by (simp add: load_entry_def Let_def)
qed

lemma human_load_eq:
  "human_load E u h =
     (let h5 = load_sync E (load_entry E u h);
          h7 = h5\<lparr>firstRun := False, ticks := Suc (ticks h5)\<rparr>;
          current = trunc (env_now E (ticks h5) - env_now E (ticks h))
      in if current > (case perf h7 ''load'' of None \<Rightarrow> 0 | Some v \<Rightarrow> v)
         then h7\<lparr>perf := (perf h7)(''load'' \<mapsto> current)\<rparr> else h7)"
proof -
  have f: "(if firstRun h5 then h5\<lparr>firstRun := False\<rparr> else h5) = h5\<lparr>firstRun := False\<rparr>" for h5 :: human
    by (cases "firstRun h5") simp_all
  show ?thesis
    unfolding human_load_def load_entry_def Let_def case_prod_beta load_async_eq_sync now_simps f
    by simp
qed

lemma human_load_models:
  "models (human_load E u h) cap = None
   \<longleftrightarrow> models h cap = None \<and> \<not> wanted (mergeDeep (config h) u) cap"
  by (simp add: human_load_eq Let_def load_sync_models)

lemma human_load_loads:
  "loads_of (human_load E u h) cap
   = loads_of h cap
     + (if wanted (mergeDeep (config h) u) cap \<and> models h cap = None \<and> module_fresh h cap then 1 else 0)"
  by (simp add: human_load_eq Let_def load_sync_loads)

lemma human_load_frame [simp]:
  "firstRun (human_load E u h) = False"
  "checkSanity (human_load E u h) = checkSanity h"
  "wanted (config (human_load E u h)) cap = wanted (mergeDeep (config h) u) cap"
  by (simp_all add: human_load_eq Let_def)

lemma human_load_config:
  "config (human_load E u h)
   = (mergeDeep (config h) u)\<lparr>backend := backend (config (human_load E u h))\<rparr>"
proof -
  have "config (human_load E u h) = config (load_entry E u h)"
    by (simp add: human_load_eq Let_def)
  then show ?thesis using load_entry_config [of E u h] by simp
qed

lemma human_load_idle:
  assumes "\<forall>c. wanted (mergeDeep (config h) u) c \<longrightarrow> models h c \<noteq> None"
  shows "models (human_load E u h) = models h"
    and "loads_of (human_load E u h) cap = loads_of h cap"
    and "nanodet (human_load E u h) = nanodet h"
proof -
  have "\<forall>c. wanted (config (load_entry E u h)) c \<longrightarrow> models (load_entry E u h) c \<noteq> None"
    using assms by simp
  then have idle: "load_sync E (load_entry E u h) = load_entry E u h"
    by (rule load_sync_idle)
  show "models (human_load E u h) = models h"
    by (simp add: human_load_eq Let_def idle)
  show "loads_of (human_load E u h) cap = loads_of h cap"
    by (simp add: human_load_eq Let_def idle)
  show "nanodet (human_load E u h) = nanodet h"
    by (simp add: human_load_eq Let_def idle)
qed

lemma human_load_twice:
  "models (human_load E u (human_load E u h)) = models (human_load E u h)"
  "loads_of (human_load E u (human_load E u h)) cap = loads_of (human_load E u h) cap"
proof -
  let ?h1 = "human_load E u h"
  have c: "config ?h1 = (mergeDeep (config h) u)\<lparr>backend := backend (config ?h1)\<rparr>"
    by (rule human_load_config)
  have w: "wanted (mergeDeep (config ?h1) u) k = wanted (mergeDeep (config h) u) k" for k
    by (subst c) (rule wanted_mergeDeep_again(1))
  have all: "\<forall>k. wanted (mergeDeep (config ?h1) u) k \<longrightarrow> models ?h1 k \<noteq> None"
    unfolding w using human_load_models [of E u h] by blast
  show "models (human_load E u ?h1) = models ?h1"
    by (rule human_load_idle(1) [OF all])
  show "loads_of (human_load E u ?h1) cap = loads_of ?h1 cap"
    by (rule human_load_idle(2) [OF all])
qed

lemma Human_fresh [simp]:
  "models (Human d u b) cap = None" "module_fresh (Human d u b) cap"
  "loads_of (Human d u b) cap = 0" "config (Human d u b) = mergeDeep d u"
  "checkSanity (Human d u b) = False" "firstRun (Human d u b)"
  by (simp_all add: Human_def module_fresh_def loads_of_def nanodet_init_def split: capability.splits)

section \<open>What the steps of \<open>detect\<close> and \<open>warmup\<close> leave unchanged\<close>

lemma run_face_frame [simp]:
  "config (snd (run_face E t h)) = config h"
  "models (snd (run_face E t h)) = models h"
  "checkSanity (snd (run_face E t h)) = checkSanity h"
  "firstRun (snd (run_face E t h)) = firstRun h"
  "nanodet (snd (run_face E t h)) = nanodet h"
  "blazepose (snd (run_face E t h)) = blazepose h"
  "load_calls (snd (run_face E t h)) = load_calls h"
  "tf_backend (snd (run_face E t h)) = tf_backend h"
  by (simp_all add: run_face_def Let_def case_prod_beta)

lemma run_body_frame [simp]:
  "config (snd (run_body E t h)) = config h"
  "models (snd (run_body E t h)) = models h"
  "checkSanity (snd (run_body E t h)) = checkSanity h"
  "firstRun (snd (run_body E t h)) = firstRun h"
  "nanodet (snd (run_body E t h)) = nanodet h"
  "blazepose (snd (run_body E t h)) = blazepose h"
  "load_calls (snd (run_body E t h)) = load_calls h"
  "tf_backend (snd (run_body E t h)) = tf_backend h"
  by (simp_all add: run_body_def Let_def case_prod_beta)

lemma run_hand_frame [simp]:
  "config (snd (run_hand E t h)) = config h"
  "models (snd (run_hand E t h)) = models h"
  "checkSanity (snd (run_hand E t h)) = checkSanity h"
  "firstRun (snd (run_hand E t h)) = firstRun h"
  "nanodet (snd (run_hand E t h)) = nanodet h"
  "blazepose (snd (run_hand E t h)) = blazepose h"
  "load_calls (snd (run_hand E t h)) = load_calls h"
  "tf_backend (snd (run_hand E t h)) = tf_backend h"
  by (simp_all add: run_hand_def Let_def case_prod_beta)

lemma object_result_of_frame [simp]:
  "config (snd (object_result_of E t h)) = config h"
  "models (snd (object_result_of E t h)) = models h"
  "checkSanity (snd (object_result_of E t h)) = checkSanity h"
  "firstRun (snd (object_result_of E t h)) = firstRun h"
  "blazepose (snd (object_result_of E t h)) = blazepose h"
  "load_calls (snd (object_result_of E t h)) = load_calls h"
  "tf_backend (snd (object_result_of E t h)) = tf_backend h"
  "perf (snd (object_result_of E t h)) = perf h"
  "ticks (snd (object_result_of E t h)) = ticks h"
  "state (snd (object_result_of E t h)) = state h"
  by (simp_all add: object_result_of_def Let_def case_prod_beta)

lemma run_object_frame [simp]:
  "config (snd (run_object E t h)) = config h"
  "models (snd (run_object E t h)) = models h"
  "checkSanity (snd (run_object E t h)) = checkSanity h"
  "firstRun (snd (run_object E t h)) = firstRun h"
  "blazepose (snd (run_object E t h)) = blazepose h"
  "load_calls (snd (run_object E t h)) = load_calls h"
  "tf_backend (snd (run_object E t h)) = tf_backend h"
  by (simp_all add: run_object_def Let_def case_prod_beta split: option.splits)

lemma run_gesture_frame [simp]:
  "config (snd (run_gesture E f b d h)) = config h"
  "models (snd (run_gesture E f b d h)) = models h"
  "checkSanity (snd (run_gesture E f b d h)) = checkSanity h"
  "firstRun (snd (run_gesture E f b d h)) = firstRun h"
  "nanodet (snd (run_gesture E f b d h)) = nanodet h"
  "blazepose (snd (run_gesture E f b d h)) = blazepose h"
  "load_calls (snd (run_gesture E f b d h)) = load_calls h"
  "tf_backend (snd (run_gesture E f b d h)) = tf_backend h"
  by (simp_all add: run_gesture_def Let_def case_prod_beta)

lemma detect_pipelines_frame [simp]:
  "config (snd (snd (snd (snd (detect_pipelines E t h))))) = config h"
  "checkSanity (snd (snd (snd (snd (detect_pipelines E t h))))) = checkSanity h"
  "models (snd (snd (snd (snd (detect_pipelines E t h))))) = models h"
  by (simp_all add: detect_pipelines_def Let_def case_prod_beta)

lemma checkBackend_config_upd [simp]:
  "(config (checkBackend E f h))\<lparr>backend := x\<rparr> = (config h)\<lparr>backend := x\<rparr>"
  by (subst checkBackend_config) simp

lemma human_load_config_upd [simp]:
  "(config (human_load E u h))\<lparr>backend := x\<rparr> = (mergeDeep (config h) u)\<lparr>backend := x\<rparr>"
  by (subst human_load_config) simp

lemma detect_begin_frame [simp]:
  "checkSanity (snd (snd (snd (detect_begin E inp u h)))) = checkSanity h"
  "(config (snd (snd (snd (detect_begin E inp u h)))))\<lparr>backend := x\<rparr>
   = (mergeDeep (config h) u)\<lparr>backend := x\<rparr>"
  by (simp_all add: detect_begin_def Let_def case_prod_beta)

lemma detect_config_eq:
  "config (snd (detect E inp u h)) = config (snd (snd (snd (detect_begin E inp u h))))"
  by (simp add: detect_def Let_def case_prod_beta split: option.splits)

lemma detect_config_upd [simp]:
  "(config (snd (detect E inp u h)))\<lparr>backend := x\<rparr> = (mergeDeep (config h) u)\<lparr>backend := x\<rparr>"
  by (simp add: detect_config_eq)

lemma detect_checkSanity [simp]: "checkSanity (snd (detect E inp u h)) = checkSanity h"
  by (simp add: detect_def Let_def case_prod_beta split: option.splits)

lemma config_upto_backend:
  assumes "c\<lparr>backend := x\<rparr> = c'\<lparr>backend := x\<rparr>"
  shows "videoOptimized c = videoOptimized c'" and "async c = async c'"
    and "gesture_enabled c = gesture_enabled c'" and "object_enabled c = object_enabled c'"
    and "profile c = profile c'" and "warmup c = warmup c'"
    and "object_skipFrames c = object_skipFrames c'"
    and "object_modelPath c = object_modelPath c'"
    and "object_minConfidence c = object_minConfidence c'"
    and "object_iouThreshold c = object_iouThreshold c'"
    and "object_maxResults c = object_maxResults c'"
    and "c = c'\<lparr>backend := backend c\<rparr>"
  using assms by (cases c; cases c'; simp)+

lemma detect_config_fields [simp]:
  "videoOptimized (config (snd (detect E inp u h))) = videoOptimized (mergeDeep (config h) u)"
  "async (config (snd (detect E inp u h))) = async (mergeDeep (config h) u)"
  "gesture_enabled (config (snd (detect E inp u h))) = gesture_enabled (mergeDeep (config h) u)"
  using config_upto_backend [OF detect_config_upd [where E = E and inp = inp and u = u and h = h and x = "[]"]] by blast+

lemma warmup_prepare_simps [simp]:
  "fst (warmup_prepare E u h) = videoOptimized (mergeDeep (config h) u)"
  "videoOptimized (config (snd (warmup_prepare E u h))) = False"
  by (simp_all add: warmup_prepare_def Let_def case_prod_beta)

lemma warmup_detect_videoOptimized [simp]:
  "videoOptimized (config (snd (warmup_detect E smp h))) = videoOptimized (config h)"
  by (simp add: warmup_detect_def case_prod_beta split: option.splits)

lemma warmup_run_videoOptimized [simp]:
  "videoOptimized (config (snd (warmup_run E h))) = videoOptimized (config h)"
  by (simp add: warmup_run_def warmupBitmap_def warmupCanvas_def warmupNode_def)

section \<open>The module state of \<open>nanodet\<close> through \<open>load\<close>\<close>

lemma nanodet_load_cfg:
  "object_modelPath c = object_modelPath c' \<Longrightarrow> nanodet_load lg c s = nanodet_load lg c' s"
  by (cases "model s") (simp_all add: nanodet_load_def)

lemma nanodet_load_executed [simp]:
  "executed (snd (nanodet_load lg c s)) = executed s"
  "last_res (snd (nanodet_load lg c s)) = last_res s"
  "skipped (snd (nanodet_load lg c s)) = skipped s"
  by (simp_all add: nanodet_load_def Let_def split: option.splits)

lemma load_sync_step_nanodet:
  "nanodet (load_sync_step E c h)
   = (if c = Nanodet \<and> wanted (config h) Nanodet \<and> models h Nanodet = None
      then snd (nanodet_load (env_loadGraphModel E) (config h) (nanodet h)) else nanodet h)"
  by (cases c; simp add: load_sync_step_def module_load_def Let_def case_prod_beta)

lemma fold_load_sync_step_nanodet:
  assumes "distinct caps"
  shows "nanodet (fold (load_sync_step E) caps h)
         = (if Nanodet \<in> set caps \<and> wanted (config h) Nanodet \<and> models h Nanodet = None
            then snd (nanodet_load (env_loadGraphModel E) (config h) (nanodet h)) else nanodet h)"
  using assms
proof (induction caps arbitrary: h)
  case Nil
  then show ?case by simp
next
  case (Cons c caps)
  then have d: "distinct caps" and nin: "c \<notin> set caps" by simp_all
  show ?case
  proof (cases "c = Nanodet")
    case True
    with nin have "Nanodet \<notin> set caps" by simp
    with Cons.IH [OF d, of "load_sync_step E c h"] True show ?thesis
      by (simp add: load_sync_step_nanodet)
  next
    case False
    with Cons.IH [OF d, of "load_sync_step E c h"] show ?thesis
      by (simp add: load_sync_step_nanodet load_sync_step_models)
  qed
qed

lemma load_sync_nanodet:
  "nanodet (load_sync E h)
   = (if wanted (config h) Nanodet \<and> models h Nanodet = None
      then snd (nanodet_load (env_loadGraphModel E) (config h) (nanodet h)) else nanodet h)"
proof -
  have "distinct load_order" "Nanodet \<in> set load_order" by (simp_all add: load_order_def)
  with fold_load_sync_step_nanodet [of load_order E h] show ?thesis
    by (simp add: load_sync_def)
qed

lemma load_entry_config_upd [simp]:
  "(config (load_entry E u h))\<lparr>backend := x\<rparr> = (mergeDeep (config h) u)\<lparr>backend := x\<rparr>"
  by (subst load_entry_config) simp

lemma human_load_nanodet:
  "nanodet (human_load E u h)
   = (if wanted (mergeDeep (config h) u) Nanodet \<and> models h Nanodet = None
      then snd (nanodet_load (env_loadGraphModel E) (mergeDeep (config h) u) (nanodet h))
      else nanodet h)"
proof -
  have "object_modelPath (config (load_entry E u h)) = object_modelPath (mergeDeep (config h) u)"
    by (rule config_upto_backend(8) [OF load_entry_config_upd [where x = "[]"]])
  then have "nanodet_load (env_loadGraphModel E) (config (load_entry E u h)) (nanodet h)
             = nanodet_load (env_loadGraphModel E) (mergeDeep (config h) u) (nanodet h)"
    by (rule nanodet_load_cfg)
  moreover have "object_enabled (config (load_entry E u h)) = object_enabled (mergeDeep (config h) u)"
    by (rule config_upto_backend(4) [OF load_entry_config_upd [where x = "[]"]])
  ultimately show ?thesis
    by (simp add: human_load_eq Let_def load_sync_nanodet)
qed

lemma human_load_executed [simp]:
  "executed (nanodet (human_load E u h)) = executed (nanodet h)"
  by (simp add: human_load_nanodet)

section \<open>The steps before the pipelines do not depend on the execution mode\<close>

lemma with_async_simps [simp]:
  "config (with_async a h) = (config h)\<lparr>async := a\<rparr>"
  "state (with_async a h) = state h"
  "perf (with_async a h) = perf h"
  "models (with_async a h) = models h"
  "checkSanity (with_async a h) = checkSanity h"
  "firstRun (with_async a h) = firstRun h"
  "nanodet (with_async a h) = nanodet h"
  "blazepose (with_async a h) = blazepose h"
  "load_calls (with_async a h) = load_calls h"
  "tf_backend (with_async a h) = tf_backend h"
  "ticks (with_async a h) = ticks h"
  by (simp_all add: with_async_def)

lemma mergeDeep_async [simp]:
  "mergeDeep c (u\<lparr>u_async := Some a\<rparr>) = (mergeDeep c u)\<lparr>async := a\<rparr>"
  by (simp add: mergeDeep_def)

lemma with_async_push:
  "(with_async a h)\<lparr>state := s\<rparr> = with_async a (h\<lparr>state := s\<rparr>)"
  "(with_async a h)\<lparr>ticks := n\<rparr> = with_async a (h\<lparr>ticks := n\<rparr>)"
  "(with_async a h)\<lparr>perf := p\<rparr> = with_async a (h\<lparr>perf := p\<rparr>)"
  "(with_async a h)\<lparr>models := ms\<rparr> = with_async a (h\<lparr>models := ms\<rparr>)"
  "(with_async a h)\<lparr>firstRun := f\<rparr> = with_async a (h\<lparr>firstRun := f\<rparr>)"
  "(with_async a h)\<lparr>tf_backend := b\<rparr> = with_async a (h\<lparr>tf_backend := b\<rparr>)"
  "(with_async a h)\<lparr>nanodet := ns\<rparr> = with_async a (h\<lparr>nanodet := ns\<rparr>)"
  "(with_async a h)\<lparr>blazepose := bs\<rparr> = with_async a (h\<lparr>blazepose := bs\<rparr>)"
  "(with_async a h)\<lparr>load_calls := lc\<rparr> = with_async a (h\<lparr>load_calls := lc\<rparr>)"
  "h\<lparr>config := c\<lparr>async := a\<rparr>\<rparr> = with_async a (h\<lparr>config := c\<rparr>)"
  "(with_async a h)\<lparr>config := c\<rparr> = h\<lparr>config := c\<rparr>"
  by (simp_all add: with_async_def)

lemma checkBackend_with_async:
  "checkBackend E f (with_async a h) = with_async a (checkBackend E f h)"
proof -
  have c: "(with_async a h1)\<lparr>config := (config h1)\<lparr>async := a, backend := b\<rparr>\<rparr>
           = with_async a (h1\<lparr>config := (config h1)\<lparr>backend := b\<rparr>\<rparr>)" for h1 b
    by (simp add: with_async_def)
  show ?thesis
    by (simp add: checkBackend_def Let_def case_prod_beta now_def with_async_push c)
qed

lemma blazepose_load_cfg:
  "body_modelPath c = body_modelPath c' \<Longrightarrow> blazepose_load lg c s = blazepose_load lg c' s"
  by (cases "bp_model s") (simp_all add: blazepose_load_def)

lemma module_load_with_async:
  "module_load E cap (with_async a h)
   = (fst (module_load E cap h), with_async a (snd (module_load E cap h)))"
proof -
  have n: "nanodet_load lg ((config h)\<lparr>async := a\<rparr>) s = nanodet_load lg (config h) s" for lg s
    by (rule nanodet_load_cfg) simp
  have b: "blazepose_load lg ((config h)\<lparr>async := a\<rparr>) s = blazepose_load lg (config h) s" for lg s
    by (rule blazepose_load_cfg) simp
  show ?thesis
    by (cases cap; simp add: module_load_def Let_def case_prod_beta n b with_async_push)
qed

lemma load_sync_step_with_async:
  "load_sync_step E c (with_async a h) = with_async a (load_sync_step E c h)"
  by (simp add: load_sync_step_def module_load_with_async Let_def case_prod_beta with_async_push)

lemma fold_load_sync_step_with_async:
  "fold (load_sync_step E) caps (with_async a h) = with_async a (fold (load_sync_step E) caps h)"
  by (induction caps arbitrary: h) (simp_all add: load_sync_step_with_async)

lemma load_sync_with_async:
  "load_sync E (with_async a h) = with_async a (load_sync E h)"
  by (simp add: load_sync_def fold_load_sync_step_with_async)

lemma load_entry_with_async:
  "load_entry E no_overrides (with_async a h) = with_async a (load_entry E no_overrides h)"
  by (simp add: load_entry_def Let_def checkBackend_with_async with_async_push)

lemma human_load_with_async:
  "human_load E no_overrides (with_async a h) = with_async a (human_load E no_overrides h)"
  by (simp add: human_load_eq Let_def load_entry_with_async load_sync_with_async with_async_push)

lemma sanity_cong:
  "checkSanity h = checkSanity h' \<Longrightarrow> sanity E inp h = sanity E inp h'"
  by (simp add: sanity_def)

lemma sanity_upd [simp]:
  "sanity E inp (h\<lparr>state := s\<rparr>) = sanity E inp h"
  "sanity E inp (h\<lparr>config := c\<rparr>) = sanity E inp h"
  "sanity E inp (with_async a h) = sanity E inp h"
  by (simp_all add: sanity_def)

lemma detect_begin_async:
  "detect_begin E inp (u\<lparr>u_async := Some a\<rparr>) h
   = (fst (detect_begin E inp u h), fst (snd (detect_begin E inp u h)),
      fst (snd (snd (detect_begin E inp u h))),
      with_async a (snd (snd (snd (detect_begin E inp u h)))))"
  unfolding detect_begin_def Let_def case_prod_beta now_simps
  by (simp add: with_async_push checkBackend_with_async human_load_with_async)

section \<open>The claims about the object pipeline\<close>

text \<open>
  Claim C1, as amended. With a loaded model: (1) while \<open>videoOptimized\<close> is on, the
  skip counter is below \<open>skipFrames\<close> and the cached result is not empty, \<open>predict\<close>
  returns the cached result unchanged, adds one to the counter and runs no model;
  (2) otherwise, with object detection enabled and a frame of rank four, the model runs
  once, the counter is reset (to 0 in video mode, to the always-decode value
  otherwise), and the decoded result is returned and cached; (3) with
  \<open>videoOptimized = true\<close>, \<open>skipFrames = 2\<close> and an empty cache at the start, four calls
  run the model exactly twice, in calls 1 and 4, and calls 2 and 3 return the result
  of call 1, provided the result of call 1 is not empty.
\<close>

theorem predict_frame_skip_cache:
  assumes "model s = Some m"
  shows "(videoOptimized cfg \<and> skipped s < object_skipFrames cfg \<and> last_res s \<noteq> [] \<longrightarrow>
            predict irr labels img cfg s = (Some (Objects (last_res s)), s\<lparr>skipped := skipped s + 1\<rparr>))
       \<and> (\<not> (videoOptimized cfg \<and> skipped s < object_skipFrames cfg \<and> last_res s \<noteq> [])
            \<and> object_enabled cfg \<and> length (shape img) = 4 \<longrightarrow>
            predict irr labels img cfg s =
              (case process irr labels (Some (executeAsync m img)) (inputSize m) [shape img ! 2, shape img ! 1] cfg of
                 Inl e \<Rightarrow> (None, s\<lparr>skipped := (if videoOptimized cfg then 0 else MAX_SAFE_INTEGER),
                                    executed := executed s + 1\<rparr>)
               | Inr obj \<Rightarrow> (Some (Objects obj),
                             s\<lparr>skipped := (if videoOptimized cfg then 0 else MAX_SAFE_INTEGER),
                               executed := executed s + 1, last_res := obj\<rparr>)))
       \<and> (videoOptimized cfg \<and> object_skipFrames cfg = 2 \<and> object_enabled cfg \<and> last_res s = []
            \<and> length (shape f1) = 4 \<and> length (shape f4) = 4
            \<and> process irr labels (Some (executeAsync m f1)) (inputSize m) [shape f1 ! 2, shape f1 ! 1] cfg = Inr r1
            \<and> r1 \<noteq> [] \<longrightarrow>
            map snd (fst (predict_seq irr labels cfg [f1, f2, f3, f4] s))
              = [executed s + 1, executed s + 1, executed s + 1, executed s + 2]
            \<and> map fst (take 3 (fst (predict_seq irr labels cfg [f1, f2, f3, f4] s)))
              = [Some (Objects r1), Some (Objects r1), Some (Objects r1)])"
proof (intro conjI impI)
  assume "videoOptimized cfg \<and> skipped s < object_skipFrames cfg \<and> last_res s \<noteq> []"
  then show "predict irr labels img cfg s = (Some (Objects (last_res s)), s\<lparr>skipped := skipped s + 1\<rparr>)"
    using predict_cached [OF assms] by blast
next
  assume a: "\<not> (videoOptimized cfg \<and> skipped s < object_skipFrames cfg \<and> last_res s \<noteq> [])
             \<and> object_enabled cfg \<and> length (shape img) = 4"
  then have 1: "\<not> (videoOptimized cfg \<and> skipped s < object_skipFrames cfg \<and> last_res s \<noteq> [])"
    and 2: "object_enabled cfg" and 3: "length (shape img) = 4" by blast+
  show "predict irr labels img cfg s =
              (case process irr labels (Some (executeAsync m img)) (inputSize m) [shape img ! 2, shape img ! 1] cfg of
                 Inl e \<Rightarrow> (None, s\<lparr>skipped := (if videoOptimized cfg then 0 else MAX_SAFE_INTEGER),
                                    executed := executed s + 1\<rparr>)
               | Inr obj \<Rightarrow> (Some (Objects obj),
                             s\<lparr>skipped := (if videoOptimized cfg then 0 else MAX_SAFE_INTEGER),
                               executed := executed s + 1, last_res := obj\<rparr>))"
    by (rule predict_decode [OF assms 1 2 3])
next
  assume a: "videoOptimized cfg \<and> object_skipFrames cfg = 2 \<and> object_enabled cfg \<and> last_res s = []
            \<and> length (shape f1) = 4 \<and> length (shape f4) = 4
            \<and> process irr labels (Some (executeAsync m f1)) (inputSize m) [shape f1 ! 2, shape f1 ! 1] cfg = Inr r1
            \<and> r1 \<noteq> []"
  then have h: "videoOptimized cfg" "object_skipFrames cfg = 2" "object_enabled cfg" "last_res s = []"
    "length (shape f1) = 4" "length (shape f4) = 4"
    "process irr labels (Some (executeAsync m f1)) (inputSize m) [shape f1 ! 2, shape f1 ! 1] cfg = Inr r1"
    "r1 \<noteq> []" by blast+
  show "map snd (fst (predict_seq irr labels cfg [f1, f2, f3, f4] s))
              = [executed s + 1, executed s + 1, executed s + 1, executed s + 2]"
    by (rule predict_four(1) [OF assms h])
  show "map fst (take 3 (fst (predict_seq irr labels cfg [f1, f2, f3, f4] s)))
              = [Some (Objects r1), Some (Objects r1), Some (Objects r1)]"
    by (rule predict_four(2) [OF assms h])
qed

theorem predict_frame_skip_cache_witness:
  "model example_state = Some example_model \<and> executed example_state = 0
   \<and> map snd (fst (predict_seq example_irregular example_labels example_config
         [example_frame, example_frame, example_frame, example_frame] example_state))
       = [executed example_state + 1, executed example_state + 1, executed example_state + 1,
          executed example_state + 2]
   \<and> map fst (take 3 (fst (predict_seq example_irregular example_labels example_config
         [example_frame, example_frame, example_frame, example_frame] example_state)))
       = [Some (Objects [example_candidate]), Some (Objects [example_candidate]),
          Some (Objects [example_candidate])]
   \<and> predict example_irregular example_labels example_frame example_config example_state
       = (Some (Objects [example_candidate]), cached_state)
   \<and> predict example_irregular example_labels example_frame example_config cached_state
       = (Some (Objects [example_candidate]), cached_state\<lparr>skipped := 1\<rparr>)"
proof -
  have m: "model example_state = Some example_model" by (simp add: example_state_eq)
  have mc: "model cached_state = Some example_model" by (simp add: cached_state_def example_state_eq)
  have e: "last_res example_state = []" "executed example_state = 0"
    by (simp_all add: example_state_eq)
  have c: "last_res cached_state = [example_candidate]" "skipped cached_state = 0"
    by (simp_all add: cached_state_def)
  note t = predict_frame_skip_cache [OF m, of example_config example_irregular example_labels example_frame
              example_frame example_frame "[example_candidate]" example_frame example_frame]
  note tc = predict_frame_skip_cache [OF mc, of example_config example_irregular example_labels example_frame]
  have h3: "videoOptimized example_config \<and> object_skipFrames example_config = 2
            \<and> object_enabled example_config \<and> last_res example_state = []
            \<and> length (shape example_frame) = 4 \<and> length (shape example_frame) = 4
            \<and> process example_irregular example_labels (Some (executeAsync example_model example_frame))
                 (inputSize example_model) [shape example_frame ! 2, shape example_frame ! 1]
                 example_config = Inr [example_candidate]
            \<and> [example_candidate] \<noteq> []"
    using e(1) example_config_simps example_frame_shape(1) process_example_model by simp
  from t h3
  have seq: "map snd (fst (predict_seq example_irregular example_labels example_config
         [example_frame, example_frame, example_frame, example_frame] example_state))
       = [executed example_state + 1, executed example_state + 1, executed example_state + 1,
          executed example_state + 2]"
    "map fst (take 3 (fst (predict_seq example_irregular example_labels example_config
         [example_frame, example_frame, example_frame, example_frame] example_state)))
       = [Some (Objects [example_candidate]), Some (Objects [example_candidate]),
          Some (Objects [example_candidate])]"
    by blast+
  have h2: "\<not> (videoOptimized example_config \<and> skipped example_state < object_skipFrames example_config
                \<and> last_res example_state \<noteq> [])
            \<and> object_enabled example_config \<and> length (shape example_frame) = 4"
    using e(1) example_config_simps(2) example_frame_shape(1) by simp
  from t h2
  have "predict example_irregular example_labels example_frame example_config example_state
        = (case process example_irregular example_labels (Some (executeAsync example_model example_frame))
                  (inputSize example_model) [shape example_frame ! 2, shape example_frame ! 1]
                  example_config of
             Inl e \<Rightarrow> (None, example_state\<lparr>skipped := (if videoOptimized example_config then 0 else MAX_SAFE_INTEGER),
                                executed := executed example_state + 1\<rparr>)
           | Inr obj \<Rightarrow> (Some (Objects obj),
                         example_state\<lparr>skipped := (if videoOptimized example_config then 0 else MAX_SAFE_INTEGER),
                           executed := executed example_state + 1, last_res := obj\<rparr>))"
    by blast
  then have first: "predict example_irregular example_labels example_frame example_config example_state
       = (Some (Objects [example_candidate]), cached_state)"
    unfolding process_example_model by (simp add: example_config_simps(3) e(2) cached_state_def)
  have h1: "videoOptimized example_config \<and> skipped cached_state < object_skipFrames example_config
            \<and> last_res cached_state \<noteq> []"
    using c example_config_simps(3,4) by simp
  from tc h1
  have "predict example_irregular example_labels example_frame example_config cached_state
        = (Some (Objects (last_res cached_state)), cached_state\<lparr>skipped := skipped cached_state + 1\<rparr>)"
    by blast
  then have second: "predict example_irregular example_labels example_frame example_config cached_state
       = (Some (Objects [example_candidate]), cached_state\<lparr>skipped := 1\<rparr>)"
    by (simp add: c)
  from m e(2) seq first second show ?thesis by blast
qed

text \<open>
  Claim C1 as stated fails: with \<open>videoOptimized = true\<close> and \<open>skipFrames = 2\<close>, a model
  that finds no object in the frame is run in each of four calls (the execution
  counter reads 1, 2, 3, 4 after them), because an empty result is never served from
  the cache.
\<close>

theorem predict_empty_result_counterexample:
  "executed quiet_state = 0
   \<and> videoOptimized example_config \<and> object_skipFrames example_config = 2
   \<and> map snd (fst (predict_seq example_irregular example_labels example_config
         [example_frame, example_frame, example_frame, example_frame] quiet_state)) = [1, 2, 3, 4]"
proof -
  have "executed quiet_state = 0" by (simp add: quiet_state_eq)
  with predict_seq_quiet example_config_simps(3,4) show ?thesis by blast
qed



text \<open>
  Claim C3, where the code breaks it. The decoder stores a box as \<open>[x, y, w, h]\<close>, a
  corner with a width and a height (line 50), and \<open>process\<close> hands these four numbers to
  the suppression of the tensor library (line 80), which reads four numbers as two
  opposite corners. For the raw output \<open>crowded_res\<close> the decoder emits, among others,
  the boxes of the neighbouring cells 28 and 29: equal in size, one cell apart, with
  an overlap ratio of 33/97, above the \<open>iouThreshold\<close> of 3/10. Read as corners the two
  do not overlap at all, and \<open>process\<close> returns both.
\<close>

theorem suppressor_keeps_overlapping_boxes:
  "process example_irregular example_labels (Some crowded_res) 416 [640, 480] example_config
     = Inr [crowded_candidates ! 0, crowded_candidates ! 2]
   \<and> boxRaw (crowded_candidates ! 0) = [95 / 832, 95 / 832, 5 / 32, 5 / 32]
   \<and> boxRaw (crowded_candidates ! 2) = [159 / 832, 95 / 832, 5 / 32, 5 / 32]
   \<and> box (crowded_candidates ! 0) = [73, 54, 100, 75]
   \<and> box (crowded_candidates ! 2) = [122, 54, 100, 75]
   \<and> object_iouThreshold example_config = 3 / 10
   \<and> box_iou (boxRaw (crowded_candidates ! 0)) (boxRaw (crowded_candidates ! 2)) = 33 / 97
   \<and> object_iouThreshold example_config
       \<le> box_iou (boxRaw (crowded_candidates ! 0)) (boxRaw (crowded_candidates ! 2))
   \<and> iou (boxRaw (crowded_candidates ! 0)) (boxRaw (crowded_candidates ! 2)) = 0"
proof -
  have b: "boxRaw (crowded_candidates ! 0) = [95 / 832, 95 / 832, 5 / 32, 5 / 32]"
    "boxRaw (crowded_candidates ! 2) = [159 / 832, 95 / 832, 5 / 32, 5 / 32]"
    "box (crowded_candidates ! 0) = [73, 54, 100, 75]"
    "box (crowded_candidates ! 2) = [122, 54, 100, 75]"
    by (simp_all add: crowded_candidates_def crowded_candidate_def)
  have t: "object_iouThreshold example_config = 3 / 10" by (simp add: example_config_def)
  have o: "box_iou (boxRaw (crowded_candidates ! 0)) (boxRaw (crowded_candidates ! 2)) = 33 / 97"
    unfolding b by (simp add: box_iou_def Let_def)
  have l: "iou (boxRaw (crowded_candidates ! 0)) (boxRaw (crowded_candidates ! 2)) = 0"
    unfolding b by (simp add: iou_def Let_def)
  have "object_iouThreshold example_config
       \<le> box_iou (boxRaw (crowded_candidates ! 0)) (boxRaw (crowded_candidates ! 2))"
    unfolding o t by simp
  with process_crowded [of example_irregular] b t o l show ?thesis by (intro conjI)
qed

text \<open>
  Claim C4. For a model with a positive input size, every candidate the decoder emits
  has a \<open>boxRaw\<close> of four numbers, each within \<open>[0, 1]\<close>, and its pixel box is computed
  from these clamped numbers. (With an input size of 0 the offsets are no numbers in
  JavaScript, which real arithmetic does not show.)
\<close>

theorem decoder_boxRaw_within_unit_interval:
  assumes "decode irr labels res isz osh cfg = Inr rs" and "c \<in> set rs" and "0 < isz"
  shows "length (boxRaw c) = 4
       \<and> (\<forall>v\<in>set (boxRaw c). 0 \<le> v \<and> v \<le> 1)
       \<and> box c = map trunc [boxRaw c ! 0 * real (osh ! 0), boxRaw c ! 1 * real (osh ! 1),
                             boxRaw c ! 2 * real (osh ! 0), boxRaw c ! 3 * real (osh ! 1)]"
proof -
  let ?P = "\<lambda>c. length (boxRaw c) = 4
       \<and> (\<forall>v\<in>set (boxRaw c). 0 \<le> v \<and> v \<le> 1)
       \<and> box c = map trunc [boxRaw c ! 0 * real (osh ! 0), boxRaw c ! 1 * real (osh ! 1),
                             boxRaw c ! 2 * real (osh ! 0), boxRaw c ! 3 * real (osh ! 1)]"
  have "\<forall>c\<in>set rs. ?P c"
  proof (rule decode_invariant [OF assms(1)])
    fix stride boxIdx scores i j k c
    assume "cell labels cfg stride isz osh boxIdx scores i j k = Inr (Some c)"
    then have c: "c = cell_result labels stride isz osh (boxIdx ! i) (scores ! i ! j) i j k"
      by (rule cell_SomeD(1))
    have "box c = map trunc [boxRaw c ! 0 * real (osh ! 0), boxRaw c ! 1 * real (osh ! 1),
                             boxRaw c ! 2 * real (osh ! 0), boxRaw c ! 3 * real (osh ! 1)]"
      unfolding c by (simp add: cell_result_def Let_def)
    then show "?P c"
      using cell_result_boxRaw [of labels stride isz osh "boxIdx ! i" "scores ! i ! j" i j k]
      unfolding c by blast
  qed
  with assms(2) show ?thesis by blast
qed

theorem decoder_boxRaw_within_unit_interval_witness:
  "decode example_irregular example_labels (Some example_res) 416 [640, 480] example_config = Inr [example_candidate]
   \<and> example_candidate \<in> set [example_candidate] \<and> (0::nat) < 416
   \<and> boxRaw example_candidate = [0, 1 / 26, 5 / 32, 0]
   \<and> list_all (\<lambda>v. 0 \<le> v \<and> v \<le> 1) (boxRaw example_candidate)
   \<and> box example_candidate = [0, 18, 100, 0]"
proof -
  have m: "example_candidate \<in> set [example_candidate]" and p: "(0::nat) < 416" by simp_all
  from decoder_boxRaw_within_unit_interval [OF decode_example m p]
  have "\<forall>v\<in>set (boxRaw example_candidate). 0 \<le> v \<and> v \<le> 1" by blast
  then have "list_all (\<lambda>v. 0 \<le> v \<and> v \<le> 1) (boxRaw example_candidate)"
    by (simp add: list_all_iff)
  with decode_example show ?thesis by (simp add: example_candidate_def)
qed

text \<open>
  Claim C10. Every candidate the decoder emits is the one built for a cell \<open>i\<close> and a
  class \<open>j\<close> of the score tensor of its stride whose score passed the test of line 38
  (above \<open>minConfidence\<close>, \<open>j\<close> not 61): it carries that score, its \<open>class\<close> field is
  \<open>j + 1\<close> and its label is the entry at index \<open>j\<close> of the label table. Conversely, for
  every stride, cell \<open>i\<close> and class \<open>j\<close> whose score passes, a candidate built for them
  is emitted, with \<open>class\<close> \<open>j + 1\<close> and the label at index \<open>j\<close>.
\<close>

theorem decoder_class_is_label_index_plus_one:
  assumes "decode irr labels (Some res) isz osh cfg = Inr rs"
  shows "(\<forall>c\<in>set rs. \<exists>ft boxIdx sT n m scores i j.
            (strideSize c = 1 \<or> strideSize c = 2 \<or> strideSize c = 4)
          \<and> featuresT labels res (strideSize c) = Some ft \<and> boxIdx_of irr ft = Inr boxIdx
          \<and> scoresT labels res (strideSize c) = Some sT \<and> arraySync sT = Inr (n, m, scores)
          \<and> i < n \<and> j < m \<and> j < length labels \<and> j \<noteq> 61
          \<and> scores ! i ! j > object_minConfidence cfg
          \<and> c = cell_result labels (strideSize c) isz osh (boxIdx ! i) (scores ! i ! j) i j (id_n c)
          \<and> score c = scores ! i ! j \<and> class_n c = j + 1 \<and> label c = labels ! j)
       \<and> (\<forall>stride sT n m scores i j.
            (stride = 1 \<or> stride = 2 \<or> stride = 4)
          \<and> scoresT labels res stride = Some sT \<and> arraySync sT = Inr (n, m, scores)
          \<and> i < n \<and> j < m \<and> j \<noteq> 61 \<and> scores ! i ! j > object_minConfidence cfg
          \<longrightarrow> (\<exists>c\<in>set rs. \<exists>ft boxIdx.
                  featuresT labels res stride = Some ft \<and> boxIdx_of irr ft = Inr boxIdx
                \<and> c = cell_result labels stride isz osh (boxIdx ! i) (scores ! i ! j) i j (id_n c)
                \<and> strideSize c = stride \<and> score c = scores ! i ! j
                \<and> class_n c = j + 1 \<and> label c = labels ! j))"
proof (intro conjI ballI allI impI)
  fix c assume "c \<in> set rs"
  with assms obtain stride ft boxIdx sT n m scores i j where
    st: "stride = 1 \<or> stride = 2 \<or> stride = 4"
    and f: "featuresT labels res stride = Some ft" "boxIdx_of irr ft = Inr boxIdx"
      "scoresT labels res stride = Some sT" "arraySync sT = Inr (n, m, scores)"
    and ij: "i < n" "j < m"
    and pass: "scores ! i ! j > object_minConfidence cfg" "j \<noteq> 61"
    and bd: "i < length boxIdx" "j < length labels"
    and c: "c = cell_result labels stride isz osh (boxIdx ! i) (scores ! i ! j) i j (id_n c)"
    by (rule decode_sound)
  let ?r = "cell_result labels stride isz osh (boxIdx ! i) (scores ! i ! j) i j (id_n c)"
  have "strideSize c = strideSize ?r" "score c = score ?r" "class_n c = class_n ?r" "label c = label ?r"
    using c by simp_all
  then have fs: "strideSize c = stride" "score c = scores ! i ! j" "class_n c = j + 1" "label c = labels ! j"
    by (simp_all only: cell_result_fields cell_result_class)
  from st f ij bd(2) pass c fs
  show "\<exists>ft boxIdx sT n m scores i j.
            (strideSize c = 1 \<or> strideSize c = 2 \<or> strideSize c = 4)
          \<and> featuresT labels res (strideSize c) = Some ft \<and> boxIdx_of irr ft = Inr boxIdx
          \<and> scoresT labels res (strideSize c) = Some sT \<and> arraySync sT = Inr (n, m, scores)
          \<and> i < n \<and> j < m \<and> j < length labels \<and> j \<noteq> 61
          \<and> scores ! i ! j > object_minConfidence cfg
          \<and> c = cell_result labels (strideSize c) isz osh (boxIdx ! i) (scores ! i ! j) i j (id_n c)
          \<and> score c = scores ! i ! j \<and> class_n c = j + 1 \<and> label c = labels ! j"
    unfolding fs(1) by blast
next
  fix stride sT n m scores i j
  assume a: "(stride = 1 \<or> stride = 2 \<or> stride = 4)
          \<and> scoresT labels res stride = Some sT \<and> arraySync sT = Inr (n, m, scores)
          \<and> i < n \<and> j < m \<and> j \<noteq> 61 \<and> scores ! i ! j > object_minConfidence cfg"
  then have h: "stride = 1 \<or> stride = 2 \<or> stride = 4" "scoresT labels res stride = Some sT"
    "arraySync sT = Inr (n, m, scores)" "i < n" "j < m" "scores ! i ! j > object_minConfidence cfg" "j \<noteq> 61"
    by blast+
  from assms h obtain ft boxIdx k where
    f: "featuresT labels res stride = Some ft" "boxIdx_of irr ft = Inr boxIdx"
    and k: "cell_result labels stride isz osh (boxIdx ! i) (scores ! i ! j) i j k \<in> set rs"
    by (rule decode_complete)
  let ?c = "cell_result labels stride isz osh (boxIdx ! i) (scores ! i ! j) i j k"
  have "?c = cell_result labels stride isz osh (boxIdx ! i) (scores ! i ! j) i j (id_n ?c)"
    by (simp only: cell_result_fields)
  moreover have "strideSize ?c = stride" "score ?c = scores ! i ! j" "class_n ?c = j + 1" "label ?c = labels ! j"
    by (simp_all only: cell_result_fields cell_result_class)
  ultimately show "\<exists>c\<in>set rs. \<exists>ft boxIdx.
                  featuresT labels res stride = Some ft \<and> boxIdx_of irr ft = Inr boxIdx
                \<and> c = cell_result labels stride isz osh (boxIdx ! i) (scores ! i ! j) i j (id_n c)
                \<and> strideSize c = stride \<and> score c = scores ! i ! j
                \<and> class_n c = j + 1 \<and> label c = labels ! j"
    using f k by blast
qed

theorem decoder_class_is_label_index_plus_one_witness:
  "decode example_irregular example_labels (Some crowded_res) 416 [640, 480] example_config
     = Inr crowded_candidates
   \<and> crowded_candidates ! 1 \<in> set crowded_candidates
   \<and> (\<exists>scores i j. scores ! i ! j > object_minConfidence example_config
         \<and> score (crowded_candidates ! 1) = scores ! i ! j
         \<and> class_n (crowded_candidates ! 1) = j + 1
         \<and> label (crowded_candidates ! 1) = example_labels ! j)
   \<and> score (crowded_candidates ! 1) = 7 / 10
   \<and> class_n (crowded_candidates ! 1) = 3 + 1
   \<and> label (crowded_candidates ! 1) = example_labels ! 3
   \<and> label (crowded_candidates ! 1) = ''motorcycle''
   \<and> scoresT example_labels crowded_res 1
       = Some \<lparr> shape = [169, 10], vals = (replicate 1690 0)[280 := 9 / 10, 283 := 7 / 10, 290 := 8 / 10] \<rparr>
   \<and> arraySync \<lparr> shape = [169, 10], vals = (replicate 1690 0)[280 := 9 / 10, 283 := 7 / 10, 290 := 8 / 10] \<rparr>
       = Inr (169, 10, rows 169 10 ((replicate 1690 0)[280 := 9 / 10, 283 := 7 / 10, 290 := 8 / 10]))
   \<and> rows 169 10 ((replicate 1690 0)[280 := 9 / 10, 283 := 7 / 10, 290 := 8 / 10]) ! 28 ! 3 = 7 / 10
   \<and> object_minConfidence example_config < 7 / 10
   \<and> (\<exists>c\<in>set crowded_candidates.
         strideSize c = 1 \<and> score c = 7 / 10 \<and> class_n c = 3 + 1 \<and> label c = example_labels ! 3)"
proof -
  let ?S = "(replicate 1690 (0::real))[280 := 9 / 10, 283 := 7 / 10, 290 := 8 / 10]"
  let ?sT = "\<lparr> shape = [169, 10], vals = ?S \<rparr>"
  have d: "decode example_irregular example_labels (Some crowded_res) 416 [640, 480] example_config
           = Inr crowded_candidates"
    by (rule decode_crowded)
  have m: "crowded_candidates ! 1 \<in> set crowded_candidates" by (simp add: crowded_candidates_def)
  note t = decoder_class_is_label_index_plus_one [OF d]
  from t have "\<forall>c\<in>set crowded_candidates. \<exists>ft boxIdx sT n m scores i j.
            (strideSize c = 1 \<or> strideSize c = 2 \<or> strideSize c = 4)
          \<and> featuresT example_labels crowded_res (strideSize c) = Some ft
          \<and> boxIdx_of example_irregular ft = Inr boxIdx
          \<and> scoresT example_labels crowded_res (strideSize c) = Some sT \<and> arraySync sT = Inr (n, m, scores)
          \<and> i < n \<and> j < m \<and> j < length example_labels \<and> j \<noteq> 61
          \<and> scores ! i ! j > object_minConfidence example_config
          \<and> c = cell_result example_labels (strideSize c) 416 [640, 480] (boxIdx ! i) (scores ! i ! j) i j (id_n c)
          \<and> score c = scores ! i ! j \<and> class_n c = j + 1 \<and> label c = example_labels ! j"
    by (rule conjunct1)
  with m have "\<exists>ft boxIdx sT n m scores i j.
            (strideSize (crowded_candidates ! 1) = 1 \<or> strideSize (crowded_candidates ! 1) = 2
             \<or> strideSize (crowded_candidates ! 1) = 4)
          \<and> featuresT example_labels crowded_res (strideSize (crowded_candidates ! 1)) = Some ft
          \<and> boxIdx_of example_irregular ft = Inr boxIdx
          \<and> scoresT example_labels crowded_res (strideSize (crowded_candidates ! 1)) = Some sT
          \<and> arraySync sT = Inr (n, m, scores)
          \<and> i < n \<and> j < m \<and> j < length example_labels \<and> j \<noteq> 61
          \<and> scores ! i ! j > object_minConfidence example_config
          \<and> crowded_candidates ! 1
             = cell_result example_labels (strideSize (crowded_candidates ! 1)) 416 [640, 480]
                 (boxIdx ! i) (scores ! i ! j) i j (id_n (crowded_candidates ! 1))
          \<and> score (crowded_candidates ! 1) = scores ! i ! j \<and> class_n (crowded_candidates ! 1) = j + 1
          \<and> label (crowded_candidates ! 1) = example_labels ! j"
    by (rule bspec [rotated])
  then obtain scores i j where
    "scores ! i ! j > object_minConfidence example_config"
    "score (crowded_candidates ! 1) = scores ! i ! j" "class_n (crowded_candidates ! 1) = j + 1"
    "label (crowded_candidates ! 1) = example_labels ! j"
    by (elim exE conjE)
  then have s: "\<exists>scores i j. scores ! i ! j > object_minConfidence example_config
         \<and> score (crowded_candidates ! 1) = scores ! i ! j
         \<and> class_n (crowded_candidates ! 1) = j + 1
         \<and> label (crowded_candidates ! 1) = example_labels ! j"
    by blast
  have v: "score (crowded_candidates ! 1) = 7 / 10" "class_n (crowded_candidates ! 1) = 3 + 1"
    "label (crowded_candidates ! 1) = example_labels ! 3" "label (crowded_candidates ! 1) = ''motorcycle''"
    by (simp_all add: crowded_candidates_def crowded_candidate_def example_labels_def)
  have sT: "scoresT example_labels crowded_res 1 = Some ?sT"
    unfolding crowded_res_def using raw_output_tensors(1) [of 1] by simp
  have aS: "arraySync ?sT = Inr (169, 10, rows 169 10 ?S)"
    by (rule arraySync_matrix) simp
  have sc: "rows 169 10 ?S ! 28 ! 3 = 7 / 10"
    using rows_nth_nth [of 28 169 3 10 ?S] by simp
  have mc: "object_minConfidence example_config < 7 / 10" by (simp add: example_config_def)
  have prem: "((1::nat) = 1 \<or> (1::nat) = 2 \<or> (1::nat) = 4)
          \<and> scoresT example_labels crowded_res 1 = Some ?sT \<and> arraySync ?sT = Inr (169, 10, rows 169 10 ?S)
          \<and> (28::nat) < 169 \<and> (3::nat) < 10 \<and> (3::nat) \<noteq> 61
          \<and> rows 169 10 ?S ! 28 ! 3 > object_minConfidence example_config"
    unfolding sc using sT aS mc by (intro conjI) simp_all
  have "\<exists>c\<in>set crowded_candidates. \<exists>ft boxIdx.
                  featuresT example_labels crowded_res 1 = Some ft
                \<and> boxIdx_of example_irregular ft = Inr boxIdx
                \<and> c = cell_result example_labels 1 416 [640, 480] (boxIdx ! 28) (rows 169 10 ?S ! 28 ! 3) 28 3 (id_n c)
                \<and> strideSize c = 1 \<and> score c = rows 169 10 ?S ! 28 ! 3
                \<and> class_n c = 3 + 1 \<and> label c = example_labels ! 3"
    by (rule t [THEN conjunct2, rule_format, OF prem])
  then have e: "\<exists>c\<in>set crowded_candidates.
         strideSize c = 1 \<and> score c = 7 / 10 \<and> class_n c = 3 + 1 \<and> label c = example_labels ! 3"
    unfolding sc by blast
  from d m s v sT aS sc mc e show ?thesis by (intro conjI)
qed

end
